theory Spec2Isabelle
  imports Main
begin

section \<open>Slayground: capacity checks and the recurrence generator\<close>

text \<open>
  A shallow embedding of the business logic of \<^verbatim>\<open>slayground_app\<close>: the capacity
  properties of \<^verbatim>\<open>ClassSession\<close> and \<^verbatim>\<open>Event\<close> (models.py), the recurrence
  generator \<^verbatim>\<open>ClassSession.generate_recurrences\<close> (models.py) and its batch variant
  \<^verbatim>\<open>ClassSessionAdmin.generate_repeats\<close> (admin.py), the \<^verbatim>\<open>clean\<close> methods of the
  booking and registration forms (forms.py) and the calendar feed (views.py).

  Conventions. A database table is the list of its rows. A Python exception is a value
  of type \<open>error\<close>; a function that may raise returns \<open>error + 'a\<close>. Columns
  declared \<^verbatim>\<open>PositiveIntegerField\<close> hold naturals (the database refuses negatives;
  zero is allowed); Python integers that are arguments are \<open>int\<close>.
\<close>

datatype error =
    OverflowError
  | IntegrityError
  | RelatedObjectDoesNotExist
  | ValidationError string
  | ValidationError_spots_left "int option"

text \<open>\<open>ValidationError_spots_left n\<close> is the \<^verbatim>\<open>ValidationError\<close> whose message is
  \<^verbatim>\<open>f"Only {n} spots left ..."\<close>.\<close>

definition is_ValidationError :: "error \<Rightarrow> bool" where
  "is_ValidationError e =
     (case e of ValidationError m \<Rightarrow> True | ValidationError_spots_left n \<Rightarrow> True | _ \<Rightarrow> False)"

subsection \<open>Dates, datetimes and timedeltas (Python's \<^verbatim>\<open>datetime\<close> module)\<close>

text \<open>
  A \<open>date\<close> is its proleptic Gregorian ordinal (\<^verbatim>\<open>date.toordinal()\<close>, day 1 is
  0001-01-01). A \<open>datetime\<close> is the number of microseconds since 0001-01-01T00:00:00 on
  its own clock; rows read from the store all carry the same fixed offset (UTC), and
  Python's arithmetic on such values is arithmetic on this number. A \<open>timedelta\<close> is a
  number of microseconds. Results outside the range of the Python types raise
  \<^verbatim>\<open>OverflowError\<close>.
\<close>

type_synonym date = int
type_synonym datetime = int
type_synonym timedelta = int

definition US_PER_DAY :: int where
  "US_PER_DAY = 86400000000"

definition MAXORDINAL :: int where
  "MAXORDINAL = 3652059"

definition MAX_DELTA_DAYS :: int where
  "MAX_DELTA_DAYS = 999999999"

definition is_leap :: "int \<Rightarrow> bool" where
  "is_leap y = (y mod 4 = 0 \<and> (y mod 100 \<noteq> 0 \<or> y mod 400 = 0))"

definition days_before_year :: "int \<Rightarrow> int" where
  "days_before_year year = (let y = year - 1 in y * 365 + y div 4 - y div 100 + y div 400)"

definition days_in_month :: "int \<Rightarrow> int \<Rightarrow> int" where
  "days_in_month year month =
     (if month = 2 \<and> is_leap year then 29
      else [31, 28, 31, 30, 31, 30, 31, 31, 30, 31, 30, 31] ! nat (month - 1))"

definition days_before_month :: "int \<Rightarrow> int \<Rightarrow> int" where
  "days_before_month year month =
     [0, 31, 59, 90, 120, 151, 181, 212, 243, 273, 304, 334] ! nat (month - 1)
       + (if month > 2 \<and> is_leap year then 1 else 0)"

definition ymd2ord :: "int \<Rightarrow> int \<Rightarrow> int \<Rightarrow> date" where
  "ymd2ord year month day = days_before_year year + days_before_month year month + day"

text \<open>\<^verbatim>\<open>date(year, month, day)\<close>: \<open>None\<close> stands for the \<^verbatim>\<open>ValueError\<close> of an
  impossible date.\<close>

definition date_new :: "int \<Rightarrow> int \<Rightarrow> int \<Rightarrow> date option" where
  "date_new year month day =
     (if 1 \<le> year \<and> year \<le> 9999 \<and> 1 \<le> month \<and> month \<le> 12
         \<and> 1 \<le> day \<and> day \<le> days_in_month year month
      then Some (ymd2ord year month day) else None)"

text \<open>\<^verbatim>\<open>datetime(year, month, day, hour, minute)\<close> of a valid date and time of day.\<close>

definition datetime_new :: "int \<Rightarrow> int \<Rightarrow> int \<Rightarrow> int \<Rightarrow> int \<Rightarrow> datetime" where
  "datetime_new year month day hour minute =
     (ymd2ord year month day - 1) * US_PER_DAY + (hour * 60 + minute) * 60000000"

text \<open>\<^verbatim>\<open>dt.date()\<close>.\<close>

definition datetime_date :: "datetime \<Rightarrow> date" where
  "datetime_date dt = dt div US_PER_DAY + 1"

text \<open>\<^verbatim>\<open>timedelta(weeks=n)\<close>: more than 999999999 days either way raises.\<close>

definition timedelta_weeks :: "int \<Rightarrow> error + timedelta" where
  "timedelta_weeks n =
     (if \<bar>7 * n\<bar> > MAX_DELTA_DAYS then Inl OverflowError else Inr (7 * n * US_PER_DAY))"

text \<open>\<^verbatim>\<open>dt + delta\<close> on a datetime: the result must be a day of the years 1 to 9999.\<close>

definition datetime_add :: "datetime \<Rightarrow> timedelta \<Rightarrow> error + datetime" where
  "datetime_add dt delta =
     (let r = dt + delta
      in if 0 \<le> r \<and> r < MAXORDINAL * US_PER_DAY then Inr r else Inl OverflowError)"

text \<open>\<^verbatim>\<open>d + delta\<close> on a date: only the whole days of the delta count.\<close>

definition date_add :: "date \<Rightarrow> timedelta \<Rightarrow> error + date" where
  "date_add d delta =
     (let n = d + delta div US_PER_DAY
      in if 0 < n \<and> n \<le> MAXORDINAL then Inr n else Inl OverflowError)"

subsection \<open>\<^verbatim>\<open>datetime.strptime(v, "%Y-%m-%d").date()\<close>\<close>

text \<open>
  The format compiles to the regular expression
  \<^verbatim>\<open>(\d\d\d\d)-(1[0-2]|0[1-9]|[1-9])-(3[01]|[12]\d|0[1-9]|[1-9]| [1-9])\<close>, matched at
  the start of the string; text left over after the match and an impossible date raise
  \<^verbatim>\<open>ValueError\<close> (\<open>None\<close> here). Strings are ASCII.
\<close>

definition is_digit :: "char \<Rightarrow> bool" where
  "is_digit c = (c \<in> set ''0123456789'')"

definition is_digit19 :: "char \<Rightarrow> bool" where
  "is_digit19 c = (c \<in> set ''123456789'')"

definition digit_val :: "char \<Rightarrow> int" where
  "digit_val c = int (of_char c) - 48"

fun match_year :: "string \<Rightarrow> (int \<times> string) option" where
  "match_year (a # b # c # d # rest) =
     (if is_digit a \<and> is_digit b \<and> is_digit c \<and> is_digit d
      then Some (((digit_val a * 10 + digit_val b) * 10 + digit_val c) * 10 + digit_val d, rest)
      else None)"
| "match_year _ = None"

fun match_month :: "string \<Rightarrow> (int \<times> string) option" where
  "match_month (a # b # rest) =
     (if a = CHR ''1'' \<and> b \<in> set ''012'' then Some (10 + digit_val b, rest)
      else if a = CHR ''0'' \<and> is_digit19 b then Some (digit_val b, rest)
      else if is_digit19 a then Some (digit_val a, b # rest)
      else None)"
| "match_month [a] = (if is_digit19 a then Some (digit_val a, []) else None)"
| "match_month [] = None"

fun match_day :: "string \<Rightarrow> (int \<times> string) option" where
  "match_day (a # b # rest) =
     (if a = CHR ''3'' \<and> b \<in> set ''01'' then Some (30 + digit_val b, rest)
      else if a \<in> set ''12'' \<and> is_digit b then Some (digit_val a * 10 + digit_val b, rest)
      else if a = CHR ''0'' \<and> is_digit19 b then Some (digit_val b, rest)
      else if is_digit19 a then Some (digit_val a, b # rest)
      else if a = CHR '' '' \<and> is_digit19 b then Some (digit_val b, rest)
      else None)"
| "match_day [a] = (if is_digit19 a then Some (digit_val a, []) else None)"
| "match_day [] = None"

fun match_dash :: "string \<Rightarrow> string option" where
  "match_dash (a # rest) = (if a = CHR ''-'' then Some rest else None)"
| "match_dash [] = None"

definition strptime_date :: "string \<Rightarrow> date option" where
  "strptime_date v =
     (case match_year v of None \<Rightarrow> None
      | Some (year, r1) \<Rightarrow>
     (case match_dash r1 of None \<Rightarrow> None
      | Some r2 \<Rightarrow>
     (case match_month r2 of None \<Rightarrow> None
      | Some (month, r3) \<Rightarrow>
     (case match_dash r3 of None \<Rightarrow> None
      | Some r4 \<Rightarrow>
     (case match_day r4 of None \<Rightarrow> None
      | Some (day, r5) \<Rightarrow>
     (if r5 \<noteq> [] then None else date_new year month day))))))"

subsection \<open>Reservations and the capacity of a slot\<close>

datatype status = PENDING | CONFIRMED | CANCELLED | REFUNDED

text \<open>A row of \<^verbatim>\<open>Booking\<close>; the rows of \<^verbatim>\<open>EventRegistration\<close> have the same
  columns. Only the columns the capacity computation reads are kept.\<close>

record Booking =
  quantity :: nat
  status :: status

type_synonym EventRegistration = Booking

datatype event_type = PRIVATE | PUBLIC

record Event =
  event_type :: event_type
  start_datetime :: "datetime option"
  capacity :: nat
  price_cents :: nat
  is_published :: bool

text \<open>An entry of the JSON list \<^verbatim>\<open>recurrence_skips\<close>: a string, a date object (set in
  memory) or any other JSON value.\<close>

datatype skip_entry = SkipStr string | SkipDate date | SkipOther

record ClassSession =
  class_type :: nat
  instructor :: "nat option"
  location :: "nat option"
  start_datetime :: datetime
  end_datetime :: datetime
  capacity :: nat
  price_cents :: nat
  is_published :: bool
  "notes" :: string
  recurrence_enabled :: bool
  recurrence_every_n_weeks :: nat
  recurrence_until :: "date option"
  recurrence_skips :: "skip_entry list"

text \<open>\<^verbatim>\<open>qs.filter(status=s)\<close> and \<^verbatim>\<open>qs.aggregate(s=Sum("quantity"))["s"]\<close>, which is
  \<^verbatim>\<open>None\<close> over no rows; \<^verbatim>\<open>x or 0\<close>.\<close>

definition filter_status :: "status \<Rightarrow> Booking list \<Rightarrow> Booking list" where
  "filter_status s rows = filter (\<lambda>b. status b = s) rows"

definition aggregate_sum_quantity :: "Booking list \<Rightarrow> int option" where
  "aggregate_sum_quantity rows =
     (if rows = [] then None else Some (int (sum_list (map quantity rows))))"

definition or_zero :: "int option \<Rightarrow> int" where
  "or_zero x = (case x of None \<Rightarrow> 0 | Some v \<Rightarrow> if v = 0 then 0 else v)"

text \<open>\<^verbatim>\<open>ClassSession.spots_left\<close> and \<^verbatim>\<open>ClassSession.can_accept\<close>; \<open>bookings\<close> are the
  rows of \<^verbatim>\<open>self.bookings\<close>.\<close>

definition ClassSession_spots_left :: "ClassSession \<Rightarrow> Booking list \<Rightarrow> int" where
  "ClassSession_spots_left self bookings =
     (let confirmed = or_zero (aggregate_sum_quantity (filter_status CONFIRMED bookings))
      in max (int (capacity self) - confirmed) 0)"

definition ClassSession_can_accept :: "ClassSession \<Rightarrow> Booking list \<Rightarrow> int \<Rightarrow> bool" where
  "ClassSession_can_accept self bookings qty =
     (qty > 0 \<and> ClassSession_spots_left self bookings \<ge> qty)"

text \<open>\<^verbatim>\<open>Event.is_public\<close>, \<^verbatim>\<open>Event.spots_left\<close> and \<^verbatim>\<open>Event.can_accept\<close>;
  \<open>registrations\<close> are the rows of \<^verbatim>\<open>self.registrations\<close>.\<close>

definition is_public :: "Event \<Rightarrow> bool" where
  "is_public self = (event_type self = PUBLIC)"

definition Event_spots_left :: "Event \<Rightarrow> EventRegistration list \<Rightarrow> int option" where
  "Event_spots_left self registrations =
     (if Event.capacity self \<le> 0 \<or> \<not> is_public self then None
      else let confirmed = or_zero (aggregate_sum_quantity (filter_status CONFIRMED registrations))
           in Some (max (int (Event.capacity self) - confirmed) 0))"

definition Event_can_accept :: "Event \<Rightarrow> EventRegistration list \<Rightarrow> int \<Rightarrow> bool" where
  "Event_can_accept self registrations qty =
     (if \<not> is_public self \<or> Event.capacity self \<le> 0 then True
      else qty > 0 \<and> or_zero (Event_spots_left self registrations) \<ge> qty)"

text \<open>The committed total in the words of the data model of the specification: the sum of
  the quantities of the reservations that are PENDING or CONFIRMED.\<close>

definition spec_committed_total :: "Booking list \<Rightarrow> int" where
  "spec_committed_total rows =
     int (sum_list (map quantity (filter (\<lambda>b. status b = PENDING \<or> status b = CONFIRMED) rows)))"

text \<open>The sum the code computes, written out: the quantities of the CONFIRMED rows.\<close>

definition confirmed_total :: "Booking list \<Rightarrow> int" where
  "confirmed_total rows = int (sum_list (map quantity (filter (\<lambda>b. status b = CONFIRMED) rows)))"

subsection \<open>The table of class sessions\<close>

type_synonym store = "ClassSession list"

text \<open>\<^verbatim>\<open>ClassSession.objects.filter(class_type=ct, start_datetime=dt).exists()\<close>.\<close>

definition session_exists :: "store \<Rightarrow> nat \<Rightarrow> datetime \<Rightarrow> bool" where
  "session_exists st ct dt = (\<exists>r \<in> set st. class_type r = ct \<and> start_datetime r = dt)"

text \<open>\<^verbatim>\<open>ClassSession.objects.create(...)\<close>: the constraint
  \<^verbatim>\<open>unique_classsession_type_start\<close> refuses a second row with the same class type and
  start.\<close>

definition objects_create :: "store \<Rightarrow> ClassSession \<Rightarrow> error + store" where
  "objects_create st row =
     (if session_exists st (class_type row) (start_datetime row) then Inl IntegrityError
      else Inr (st @ [row]))"

text \<open>The row both generators create: the seed's non-schedule columns, the given start and
  end, and the defaults of the recurrence columns.\<close>

definition occurrence :: "ClassSession \<Rightarrow> datetime \<Rightarrow> datetime \<Rightarrow> ClassSession" where
  "occurrence seed start_dt end_dt =
     \<lparr>class_type = class_type seed, instructor = instructor seed, location = location seed,
      start_datetime = start_dt, end_datetime = end_dt, capacity = capacity seed,
      price_cents = price_cents seed, is_published = is_published seed, notes = notes seed,
      recurrence_enabled = False, recurrence_every_n_weeks = 1, recurrence_until = None,
      recurrence_skips = []\<rparr>"

subsection \<open>\<^verbatim>\<open>ClassSession.generate_recurrences\<close>\<close>

text \<open>\<^verbatim>\<open>ClassSession._skip_set\<close>: malformed strings and values of other types are
  left out.\<close>

definition skip_add :: "skip_entry \<Rightarrow> date set \<Rightarrow> date set" where
  "skip_add v out =
     (case v of
        SkipStr s \<Rightarrow> (case strptime_date s of Some d \<Rightarrow> insert d out | None \<Rightarrow> out)
      | SkipDate d \<Rightarrow> insert d out
      | SkipOther \<Rightarrow> out)"

definition skip_set :: "ClassSession \<Rightarrow> date set" where
  "skip_set self = fold skip_add (recurrence_skips self) {}"

text \<open>The returned dictionary.\<close>

record result =
  created :: int
  skipped :: int
  reason :: string

text \<open>
  The \<^verbatim>\<open>while True\<close> loop. Its value is \<open>None\<close> when the loop never leaves;
  otherwise the outcome (the exception raised, or the dictionary returned) and the table
  as the loop left it. Nothing is rolled back when an exception ends the loop.
\<close>

partial_function (option) recurrence_loop ::
  "ClassSession \<Rightarrow> bool \<Rightarrow> date \<Rightarrow> timedelta \<Rightarrow> date set \<Rightarrow> datetime \<Rightarrow> int \<Rightarrow> int \<Rightarrow> store
     \<Rightarrow> ((error + result) \<times> store) option"
where
  "recurrence_loop self dry_run end_date duration skips cursor n_created n_skipped st =
    (case timedelta_weeks (int (recurrence_every_n_weeks self)) of
       Inl e \<Rightarrow> Some (Inl e, st)
     | Inr step \<Rightarrow>
    (case datetime_add cursor step of
       Inl e \<Rightarrow> Some (Inl e, st)
     | Inr cursor' \<Rightarrow>
       if datetime_date cursor' > end_date
       then Some (Inr \<lparr>created = n_created, skipped = n_skipped, reason = ''ok''\<rparr>, st)
       else if datetime_date cursor' \<in> skips
       then recurrence_loop self dry_run end_date duration skips cursor'
              n_created (n_skipped + 1) st
       else
      (case datetime_add cursor' duration of
         Inl e \<Rightarrow> Some (Inl e, st)
       | Inr end_dt \<Rightarrow>
         if session_exists st (class_type self) cursor'
         then recurrence_loop self dry_run end_date duration skips cursor'
                n_created (n_skipped + 1) st
         else if dry_run
         then recurrence_loop self dry_run end_date duration skips cursor'
                (n_created + 1) n_skipped st
         else
        (case objects_create st (occurrence self cursor' end_dt) of
           Inl e \<Rightarrow> Some (Inl e, st)
         | Inr st' \<Rightarrow>
             recurrence_loop self dry_run end_date duration skips cursor'
               (n_created + 1) n_skipped st'))))"

text \<open>\<^verbatim>\<open>self.recurrence_until or (self.start_datetime.date() + timedelta(weeks=default_weeks))\<close>.\<close>

definition resolve_end_date :: "ClassSession \<Rightarrow> int \<Rightarrow> error + date" where
  "resolve_end_date self default_weeks =
     (case recurrence_until self of
        Some d \<Rightarrow> Inr d
      | None \<Rightarrow>
          (case timedelta_weeks default_weeks of
             Inl e \<Rightarrow> Inl e
           | Inr delta \<Rightarrow> date_add (datetime_date (start_datetime self)) delta))"

definition generate_recurrences ::
  "ClassSession \<Rightarrow> int \<Rightarrow> bool \<Rightarrow> store \<Rightarrow> ((error + result) \<times> store) option"
where
  "generate_recurrences self default_weeks dry_run st =
     (if \<not> recurrence_enabled self
      then Some (Inr \<lparr>created = 0, skipped = 0, reason = ''disabled''\<rparr>, st)
      else
     (case resolve_end_date self default_weeks of
        Inl e \<Rightarrow> Some (Inl e, st)
      | Inr end_date \<Rightarrow>
          if end_date < datetime_date (start_datetime self)
          then Some (Inr \<lparr>created = 0, skipped = 0, reason = ''empty-range''\<rparr>, st)
          else recurrence_loop self dry_run end_date
                 (end_datetime self - start_datetime self) (skip_set self)
                 (start_datetime self) 0 0 st))"

subsection \<open>The loop, one pass at a time\<close>

text \<open>
  One pass through the body of the \<^verbatim>\<open>while True\<close> loop: either the loop is left (by
  \<^verbatim>\<open>break\<close> or by an exception), with the outcome and the table, or the next pass starts
  from a new cursor, new counters and a new table. The lemma \<open>recurrence_loop_pass\<close>
  below shows that \<open>recurrence_loop\<close> is the iteration of this pass.
\<close>

type_synonym loop_state = "datetime \<times> int \<times> int \<times> store"

definition loop_pass ::
  "ClassSession \<Rightarrow> bool \<Rightarrow> date \<Rightarrow> timedelta \<Rightarrow> date set \<Rightarrow> datetime \<Rightarrow> int \<Rightarrow> int \<Rightarrow> store
     \<Rightarrow> ((error + result) \<times> store) + loop_state"
where
  "loop_pass self dry_run end_date duration skips cursor n_created n_skipped st =
    (case timedelta_weeks (int (recurrence_every_n_weeks self)) of
       Inl e \<Rightarrow> Inl (Inl e, st)
     | Inr step \<Rightarrow>
    (case datetime_add cursor step of
       Inl e \<Rightarrow> Inl (Inl e, st)
     | Inr cursor' \<Rightarrow>
       if datetime_date cursor' > end_date
       then Inl (Inr \<lparr>created = n_created, skipped = n_skipped, reason = ''ok''\<rparr>, st)
       else if datetime_date cursor' \<in> skips
       then Inr (cursor', n_created, n_skipped + 1, st)
       else
      (case datetime_add cursor' duration of
         Inl e \<Rightarrow> Inl (Inl e, st)
       | Inr end_dt \<Rightarrow>
         if session_exists st (class_type self) cursor'
         then Inr (cursor', n_created, n_skipped + 1, st)
         else if dry_run
         then Inr (cursor', n_created + 1, n_skipped, st)
         else
        (case objects_create st (occurrence self cursor' end_dt) of
           Inl e \<Rightarrow> Inl (Inl e, st)
         | Inr st' \<Rightarrow> Inr (cursor', n_created + 1, n_skipped, st')))))"

text \<open>The loop after at most \<open>n\<close> passes: left, or about to start the next pass.\<close>

fun passes ::
  "nat \<Rightarrow> ClassSession \<Rightarrow> bool \<Rightarrow> date \<Rightarrow> timedelta \<Rightarrow> date set \<Rightarrow> loop_state
     \<Rightarrow> ((error + result) \<times> store) + loop_state"
where
  "passes 0 self dry_run end_date duration skips s = Inr s"
| "passes (Suc n) self dry_run end_date duration skips (cursor, n_created, n_skipped, st) =
     (case loop_pass self dry_run end_date duration skips cursor n_created n_skipped st of
        Inl y \<Rightarrow> Inl y
      | Inr s' \<Rightarrow> passes n self dry_run end_date duration skips s')"

definition table_of :: "((error + result) \<times> store) + loop_state \<Rightarrow> store" where
  "table_of x = (case x of Inl (out, st) \<Rightarrow> st | Inr (cursor, n_created, n_skipped, st) \<Rightarrow> st)"

text \<open>The table while \<^verbatim>\<open>generate_recurrences\<close> runs: after at most \<open>n\<close> passes of its
  loop. This is defined whether the call ever returns or not.\<close>

definition table_after :: "nat \<Rightarrow> ClassSession \<Rightarrow> int \<Rightarrow> bool \<Rightarrow> store \<Rightarrow> store" where
  "table_after n self default_weeks dry_run st =
     (if \<not> recurrence_enabled self then st
      else
     (case resolve_end_date self default_weeks of
        Inl e \<Rightarrow> st
      | Inr end_date \<Rightarrow>
          if end_date < datetime_date (start_datetime self) then st
          else table_of (passes n self dry_run end_date
                 (end_datetime self - start_datetime self) (skip_set self)
                 (start_datetime self, 0, 0, st))))"

subsection \<open>\<^verbatim>\<open>ClassSessionAdmin.generate_repeats\<close> (the batch variant)\<close>

text \<open>
  The data posted to \<^verbatim>\<open>RepeatSessionsActionForm\<close>. The form extends Django's
  \<^verbatim>\<open>ActionForm\<close> and so has its fields too: \<^verbatim>\<open>action\<close>, a required
  \<^verbatim>\<open>ChoiceField\<close> (the posted value, empty when missing), and \<^verbatim>\<open>select_across\<close>,
  which is not required and accepts everything. An integer field is \<open>None\<close> when it is
  missing or not an integer; both integer fields are required, with \<^verbatim>\<open>min_value=1\<close>.
\<close>

record RepeatSessionsActionForm =
  action :: string
  occurrences :: "int option"
  every_n_weeks :: "int option"
  skip_dates :: string

definition min_value_1 :: "int option \<Rightarrow> bool" where
  "min_value_1 field = (case field of None \<Rightarrow> False | Some v \<Rightarrow> 1 \<le> v)"

text \<open>
  A required \<^verbatim>\<open>ChoiceField\<close> accepts a value that is not empty and is one of its choices.
  \<^verbatim>\<open>ActionForm.action\<close> is declared with no choices. The changelist view fills in the
  choices of the form it builds itself; \<^verbatim>\<open>generate_repeats\<close> builds a form of its own,
  \<^verbatim>\<open>RepeatSessionsActionForm(request.POST)\<close>, and gives it none.
\<close>

definition choice_valid :: "string list \<Rightarrow> string \<Rightarrow> bool" where
  "choice_valid choices v = (v \<noteq> [] \<and> v \<in> set choices)"

definition action_choices :: "string list" where
  "action_choices = []"

definition form_is_valid :: "RepeatSessionsActionForm \<Rightarrow> bool" where
  "form_is_valid form =
     (choice_valid action_choices (action form)
      \<and> min_value_1 (occurrences form) \<and> min_value_1 (every_n_weeks form))"

text \<open>\<^verbatim>\<open>re.split(r"[,\s]+", raw_skips)\<close> without its empty tokens: the maximal runs of
  characters that are neither a comma nor white space.\<close>

definition is_separator :: "char \<Rightarrow> bool" where
  "is_separator c =
     (c = CHR '','' \<or> (of_char c :: nat) \<in> {9, 10, 11, 12, 13, 28, 29, 30, 31, 32})"

fun split_tokens :: "string \<Rightarrow> string \<Rightarrow> string list" where
  "split_tokens tok [] = (if tok = [] then [] else [tok])"
| "split_tokens tok (c # cs) =
     (if is_separator c
      then (if tok = [] then split_tokens [] cs else tok # split_tokens [] cs)
      else split_tokens (tok @ [c]) cs)"

definition token_add :: "string \<Rightarrow> date set \<Rightarrow> date set" where
  "token_add token out = (case strptime_date token of Some d \<Rightarrow> insert d out | None \<Rightarrow> out)"

definition form_skip_set :: "RepeatSessionsActionForm \<Rightarrow> date set" where
  "form_skip_set form = fold token_add (split_tokens [] (skip_dates form)) {}"

text \<open>The inner loop \<^verbatim>\<open>for i in range(1, occurrences + 1)\<close> over one seed, and the
  outer loop \<^verbatim>\<open>for seed in queryset\<close>; the counters run through both.\<close>

fun repeat_occurrences ::
  "ClassSession \<Rightarrow> int \<Rightarrow> date set \<Rightarrow> timedelta \<Rightarrow> int list \<Rightarrow> int \<Rightarrow> int \<Rightarrow> store
     \<Rightarrow> (error + int \<times> int) \<times> store"
where
  "repeat_occurrences seed interval skips duration [] n_created n_skipped st =
     (Inr (n_created, n_skipped), st)"
| "repeat_occurrences seed interval skips duration (i # rest) n_created n_skipped st =
    (case timedelta_weeks (interval * i) of
       Inl e \<Rightarrow> (Inl e, st)
     | Inr delta \<Rightarrow>
    (case datetime_add (start_datetime seed) delta of
       Inl e \<Rightarrow> (Inl e, st)
     | Inr start_dt \<Rightarrow>
       if datetime_date start_dt \<in> skips
       then repeat_occurrences seed interval skips duration rest n_created (n_skipped + 1) st
       else
      (case datetime_add start_dt duration of
         Inl e \<Rightarrow> (Inl e, st)
       | Inr end_dt \<Rightarrow>
         if session_exists st (class_type seed) start_dt
         then repeat_occurrences seed interval skips duration rest n_created (n_skipped + 1) st
         else
        (case objects_create st (occurrence seed start_dt end_dt) of
           Inl e \<Rightarrow> (Inl e, st)
         | Inr st' \<Rightarrow>
             repeat_occurrences seed interval skips duration rest (n_created + 1) n_skipped st'))))"

fun repeat_seeds ::
  "ClassSession list \<Rightarrow> int \<Rightarrow> int \<Rightarrow> date set \<Rightarrow> int \<Rightarrow> int \<Rightarrow> store
     \<Rightarrow> (error + int \<times> int) \<times> store"
where
  "repeat_seeds [] n_occ interval skips n_created n_skipped st =
     (Inr (n_created, n_skipped), st)"
| "repeat_seeds (seed # seeds) n_occ interval skips n_created n_skipped st =
    (case repeat_occurrences seed interval skips (end_datetime seed - start_datetime seed)
            [1..n_occ] n_created n_skipped st of
       (Inl e, st') \<Rightarrow> (Inl e, st')
     | (Inr (c, k), st') \<Rightarrow> repeat_seeds seeds n_occ interval skips c k st')"

text \<open>What \<^verbatim>\<open>message_user\<close> shows.\<close>

datatype message = InvalidOptions | CreatedSkipped int int

definition generate_repeats ::
  "RepeatSessionsActionForm \<Rightarrow> ClassSession list \<Rightarrow> store \<Rightarrow> (error + message) \<times> store"
where
  "generate_repeats form queryset st =
     (if \<not> form_is_valid form then (Inr InvalidOptions, st)
      else
     (case (occurrences form, every_n_weeks form) of
        (Some n_occ, Some interval) \<Rightarrow>
          (case repeat_seeds queryset n_occ interval (form_skip_set form) 0 0 st of
             (Inl e, st') \<Rightarrow> (Inl e, st')
           | (Inr (c, k), st') \<Rightarrow> (Inr (CreatedSkipped c k), st'))
      | _ \<Rightarrow> (Inr InvalidOptions, st)))"

subsection \<open>The forms and views that take reservations\<close>

text \<open>\<^verbatim>\<open>cleaned.get("quantity") or 1\<close>: the cleaned quantity is absent when its field
  failed validation.\<close>

definition quantity_or_1 :: "int option \<Rightarrow> int" where
  "quantity_or_1 q = (case q of None \<Rightarrow> 1 | Some v \<Rightarrow> if v = 0 then 1 else v)"

text \<open>An error \<^verbatim>\<open>clean\<close> attaches to the quantity field with \<^verbatim>\<open>add_error\<close>: the
  number of spots left shown to the user.\<close>

datatype field_error = OnlySpotsLeft "int option"

text \<open>
  \<^verbatim>\<open>BookingCreateForm.clean\<close>, with \<open>now\<close> the value of \<^verbatim>\<open>timezone.now()\<close>: \<open>Inl\<close>
  is the \<^verbatim>\<open>ValidationError\<close> raised, \<open>Inr\<close> the errors added to fields.
\<close>

definition BookingCreateForm_clean ::
  "datetime \<Rightarrow> ClassSession option \<Rightarrow> Booking list \<Rightarrow> int option \<Rightarrow> error + field_error list"
where
  "BookingCreateForm_clean now session bookings cleaned_quantity =
     (case session of
        None \<Rightarrow> Inl (ValidationError ''No class session selected.'')
      | Some s \<Rightarrow>
          if start_datetime s < now
          then Inl (ValidationError ''This class has already started or finished.'')
          else let qty = quantity_or_1 cleaned_quantity
               in if \<not> ClassSession_can_accept s bookings qty
                  then Inr [OnlySpotsLeft (Some (ClassSession_spots_left s bookings))]
                  else Inr [])"

text \<open>\<^verbatim>\<open>EventRegistrationForm.clean\<close>.\<close>

definition EventRegistrationForm_clean ::
  "datetime \<Rightarrow> Event option \<Rightarrow> EventRegistration list \<Rightarrow> int option
     \<Rightarrow> error + field_error list"
where
  "EventRegistrationForm_clean now event registrations cleaned_quantity =
     (case event of
        None \<Rightarrow> Inl (ValidationError ''Invalid event.'')
      | Some ev \<Rightarrow>
          if \<not> is_public ev then Inl (ValidationError ''Invalid event.'')
          else if (case Event.start_datetime ev of None \<Rightarrow> False | Some t \<Rightarrow> t < now)
          then Inl (ValidationError ''This event has already started or finished.'')
          else let qty = quantity_or_1 cleaned_quantity
               in if \<not> Event_can_accept ev registrations qty
                  then Inr [OnlySpotsLeft (Event_spots_left ev registrations)]
                  else Inr [])"

text \<open>
  \<^verbatim>\<open>Booking.clean\<close> and \<^verbatim>\<open>EventRegistration.clean\<close> (models.py), on an instance with
  the given status, related slot and quantity. The related slot is \<open>None\<close> while the
  foreign key has not been set; reading it then raises \<^verbatim>\<open>RelatedObjectDoesNotExist\<close>.
  Python's \<^verbatim>\<open>and\<close> reads the slot only when the status is PENDING or CONFIRMED.
\<close>

definition Booking_clean ::
  "status \<Rightarrow> ClassSession option \<Rightarrow> Booking list \<Rightarrow> int \<Rightarrow> error + unit"
where
  "Booking_clean stat session bookings qty =
     (if stat = PENDING \<or> stat = CONFIRMED
      then (case session of
              None \<Rightarrow> Inl RelatedObjectDoesNotExist
            | Some s \<Rightarrow>
                if \<not> ClassSession_can_accept s bookings qty
                then Inl (ValidationError_spots_left (Some (ClassSession_spots_left s bookings)))
                else Inr ())
      else Inr ())"

definition EventRegistration_clean ::
  "Event option \<Rightarrow> EventRegistration list \<Rightarrow> int \<Rightarrow> error + unit"
where
  "EventRegistration_clean event registrations qty =
     (case event of
        None \<Rightarrow> Inl RelatedObjectDoesNotExist
      | Some ev \<Rightarrow>
          if \<not> Event_can_accept ev registrations qty
          then Inl (ValidationError_spots_left (Event_spots_left ev registrations))
          else Inr ())"

text \<open>
  The field \<^verbatim>\<open>quantity = forms.IntegerField(min_value=1, max_value=20)\<close> of both forms:
  the cleaned value of what was posted (\<open>None\<close> posted: missing or not an integer), absent
  when the field is in error; and the quantity of the model instance the form builds, which
  keeps the model's default 1 when the field is in error.
\<close>

definition quantity_field :: "int option \<Rightarrow> int option" where
  "quantity_field posted =
     (case posted of None \<Rightarrow> None | Some v \<Rightarrow> if 1 \<le> v \<and> v \<le> 20 then Some v else None)"

definition instance_quantity :: "int option \<Rightarrow> int" where
  "instance_quantity cleaned_quantity = (case cleaned_quantity of None \<Rightarrow> 1 | Some v \<Rightarrow> v)"

text \<open>The form holds an error after its fields and its \<^verbatim>\<open>clean\<close> have run: a field
  failed (\<open>other_fields_valid\<close> speaks for the name and email fields), or \<^verbatim>\<open>clean\<close>
  raised a \<^verbatim>\<open>ValidationError\<close> or added an error.\<close>

definition form_has_errors :: "bool \<Rightarrow> int option \<Rightarrow> error + field_error list \<Rightarrow> bool" where
  "form_has_errors other_fields_valid cleaned_quantity cleaned =
     (\<not> other_fields_valid \<or> cleaned_quantity = None \<or> cleaned \<noteq> Inr [])"

text \<open>
  \<^verbatim>\<open>form.is_valid()\<close> of a Django \<^verbatim>\<open>ModelForm\<close>. A form without data is not bound and
  not valid. A bound form cleans its fields, runs \<^verbatim>\<open>clean\<close>, and then, whatever errors
  it holds, validates the model instance it builds (\<^verbatim>\<open>_post_clean\<close>), which runs the
  model's \<^verbatim>\<open>clean\<close>: its \<^verbatim>\<open>ValidationError\<close> becomes an error of the form, any other
  exception leaves \<^verbatim>\<open>is_valid\<close>. The instance is new: its status is the default PENDING
  and its session or event is not set, since the views set them only after
  \<^verbatim>\<open>is_valid\<close> has returned.
\<close>

definition BookingCreateForm_is_valid ::
  "datetime \<Rightarrow> bool \<Rightarrow> bool \<Rightarrow> ClassSession option \<Rightarrow> Booking list \<Rightarrow> int option \<Rightarrow> error + bool"
where
  "BookingCreateForm_is_valid now bound other_fields_valid session bookings posted_quantity =
     (if \<not> bound then Inr False
      else let cleaned_quantity = quantity_field posted_quantity;
               cleaned = BookingCreateForm_clean now session bookings cleaned_quantity
           in case Booking_clean PENDING None [] (instance_quantity cleaned_quantity) of
                Inl e \<Rightarrow> if is_ValidationError e then Inr False else Inl e
              | Inr u \<Rightarrow> Inr (\<not> form_has_errors other_fields_valid cleaned_quantity cleaned))"

definition EventRegistrationForm_is_valid ::
  "datetime \<Rightarrow> bool \<Rightarrow> bool \<Rightarrow> Event option \<Rightarrow> EventRegistration list \<Rightarrow> int option
     \<Rightarrow> error + bool"
where
  "EventRegistrationForm_is_valid now bound other_fields_valid event registrations
       posted_quantity =
     (if \<not> bound then Inr False
      else let cleaned_quantity = quantity_field posted_quantity;
               cleaned = EventRegistrationForm_clean now event registrations cleaned_quantity
           in case EventRegistration_clean None [] (instance_quantity cleaned_quantity) of
                Inl e \<Rightarrow> if is_ValidationError e then Inr False else Inl e
              | Inr u \<Rightarrow> Inr (\<not> form_has_errors other_fields_valid cleaned_quantity cleaned))"

text \<open>
  The views \<^verbatim>\<open>book_session\<close> and \<^verbatim>\<open>slaybrations_register\<close>, for the published slot
  \<^verbatim>\<open>get_object_or_404\<close> found: the response (or the exception that leaves the view) and
  the reservations of the slot afterwards. The form is bound when the request carries
  POST data (\<^verbatim>\<open>request.POST or None\<close>). \<^verbatim>\<open>is_valid\<close> is called outside the
  \<^verbatim>\<open>try\<close> block of \<^verbatim>\<open>book_session\<close>, so what it raises leaves the view. A POST
  with a valid form saves one PENDING reservation and redirects; otherwise the page is
  rendered and nothing is saved.
\<close>

datatype response = Redirect | Render

definition book_session ::
  "datetime \<Rightarrow> bool \<Rightarrow> bool \<Rightarrow> bool \<Rightarrow> ClassSession \<Rightarrow> Booking list \<Rightarrow> int option
     \<Rightarrow> (error + response) \<times> Booking list"
where
  "book_session now is_post has_data other_fields_valid session bookings posted_quantity =
     (if \<not> is_post then (Inr Render, bookings)
      else case BookingCreateForm_is_valid now has_data other_fields_valid (Some session)
                  bookings posted_quantity of
             Inl e \<Rightarrow> (Inl e, bookings)
           | Inr valid \<Rightarrow>
               if valid
               then (Inr Redirect,
                     bookings @ [\<lparr>quantity = nat (instance_quantity (quantity_field posted_quantity)),
                                  status = PENDING\<rparr>])
               else (Inr Render, bookings))"

definition slaybrations_register ::
  "datetime \<Rightarrow> bool \<Rightarrow> bool \<Rightarrow> bool \<Rightarrow> Event \<Rightarrow> EventRegistration list \<Rightarrow> int option
     \<Rightarrow> (error + response) \<times> EventRegistration list"
where
  "slaybrations_register now is_post has_data other_fields_valid event registrations
       posted_quantity =
     (if \<not> is_post then (Inr Render, registrations)
      else case EventRegistrationForm_is_valid now has_data other_fields_valid (Some event)
                  registrations posted_quantity of
             Inl e \<Rightarrow> (Inl e, registrations)
           | Inr valid \<Rightarrow>
               if valid
               then (Inr Redirect,
                     registrations
                       @ [\<lparr>quantity = nat (instance_quantity (quantity_field posted_quantity)),
                           status = PENDING\<rparr>])
               else (Inr Render, registrations))"

subsection \<open>The calendar feed (\<^verbatim>\<open>calendar_events\<close>)\<close>

text \<open>A GET parameter is absent (\<open>None\<close>) or a string; Python takes the empty string for
  false as it does \<^verbatim>\<open>None\<close>.\<close>

definition param_given :: "string option \<Rightarrow> string option" where
  "param_given p = (case p of None \<Rightarrow> None | Some s \<Rightarrow> if s = [] then None else Some s)"

text \<open>
  The \<^verbatim>\<open>try\<close> block. \<open>fromisoformat\<close> stands for \<^verbatim>\<open>datetime.fromisoformat\<close> followed
  by \<^verbatim>\<open>make_aware\<close> (library code, a parameter here), \<open>None\<close> for its
  \<^verbatim>\<open>ValueError\<close>. The handler is \<^verbatim>\<open>pass\<close>: the query set stays as the statements
  before the exception left it.
\<close>

definition range_filters ::
  "(string \<Rightarrow> datetime option) \<Rightarrow> string option \<Rightarrow> string option \<Rightarrow> ClassSession list
     \<Rightarrow> ClassSession list"
where
  "range_filters fromisoformat start_param end_param events_qs =
     (case param_given start_param of
        None \<Rightarrow>
          (case param_given end_param of
             None \<Rightarrow> events_qs
           | Some e \<Rightarrow>
               (case fromisoformat e of
                  None \<Rightarrow> events_qs
                | Some end_dt \<Rightarrow> filter (\<lambda>s. start_datetime s \<le> end_dt) events_qs))
      | Some b \<Rightarrow>
          (case fromisoformat b of
             None \<Rightarrow> events_qs
           | Some start_dt \<Rightarrow>
               (let qs = filter (\<lambda>s. start_datetime s \<ge> start_dt) events_qs
                in case param_given end_param of
                     None \<Rightarrow> qs
                   | Some e \<Rightarrow>
                       (case fromisoformat e of
                          None \<Rightarrow> qs
                        | Some end_dt \<Rightarrow> filter (\<lambda>s. start_datetime s \<le> end_dt) qs))))"

text \<open>The feed lists one record per row of the final query set, ordered by start; the rows
  themselves stand for the records.\<close>

definition calendar_events ::
  "(string \<Rightarrow> datetime option) \<Rightarrow> datetime \<Rightarrow> string option \<Rightarrow> string option \<Rightarrow> store
     \<Rightarrow> ClassSession list"
where
  "calendar_events fromisoformat now start_param end_param st =
     (let published = filter is_published st;
          events_qs = (if param_given start_param = None \<and> param_given end_param = None
                       then filter (\<lambda>s. start_datetime s \<ge> now) published
                       else published)
      in sort_key start_datetime (range_filters fromisoformat start_param end_param events_qs))"

text \<open>The feed the specification describes for a malformed range: the published rows that
  start at \<open>now\<close> or later.\<close>

definition spec_future_only :: "datetime \<Rightarrow> store \<Rightarrow> ClassSession set" where
  "spec_future_only now st = {s \<in> set st. is_published s \<and> start_datetime s \<ge> now}"

subsection \<open>Auxiliary notions for the recurrence loop\<close>

text \<open>What one run of the loop leaves behind, and what a later run over the same cursor
  positions does.\<close>

definition covers :: "store \<Rightarrow> store \<Rightarrow> nat \<Rightarrow> bool" where
  "covers st1 st2 ct = (\<forall>dt. session_exists st1 ct dt \<longrightarrow> session_exists st2 ct dt)"

definition made_from :: "ClassSession \<Rightarrow> timedelta \<Rightarrow> ClassSession \<Rightarrow> bool" where
  "made_from seed duration r =
     (r = occurrence seed (start_datetime r) (end_datetime r)
      \<and> end_datetime r - start_datetime r = duration)"

definition loop_post ::
  "ClassSession \<Rightarrow> bool \<Rightarrow> date \<Rightarrow> timedelta \<Rightarrow> date set \<Rightarrow> datetime \<Rightarrow> int \<Rightarrow> store
     \<Rightarrow> (error + result) \<times> store \<Rightarrow> bool"
where
  "loop_post self dry_run end_date duration skips cursor seen st y =
     ((\<exists>new. snd y = st @ new \<and> (\<forall>r \<in> set new. made_from self duration r))
      \<and> (\<forall>res. fst y = Inr res \<longrightarrow> reason res = ''ok'')
      \<and> (\<forall>res. fst y = Inr res \<longrightarrow> \<not> dry_run \<longrightarrow>
            (\<forall>st2 c2 k2. covers (snd y) st2 (class_type self) \<longrightarrow>
               recurrence_loop self dry_run end_date duration skips cursor c2 k2 st2
                 = Some (Inr \<lparr>created = c2,
                              skipped = k2 + (created res + skipped res - seen),
                              reason = ''ok''\<rparr>, st2))))"

text \<open>Running the generator, then running it again with the same parameters on the table
  the first run left.\<close>

definition rerun ::
  "ClassSession \<Rightarrow> int \<Rightarrow> bool \<Rightarrow> store \<Rightarrow> ((error + result) \<times> store) option"
where
  "rerun self default_weeks dry_run st =
     (case generate_recurrences self default_weeks dry_run st of
        None \<Rightarrow> None
      | Some (out, st1) \<Rightarrow> generate_recurrences self default_weeks dry_run st1)"

subsection \<open>Example data\<close>

definition example_session :: ClassSession where
  "example_session =
     \<lparr>class_type = 1, instructor = None, location = None,
      start_datetime = datetime_new 2024 1 1 0 0, end_datetime = datetime_new 2024 1 1 1 0,
      capacity = 10, price_cents = 0, is_published = True, notes = [],
      recurrence_enabled = True, recurrence_every_n_weeks = 1,
      recurrence_until = Some (ymd2ord 2024 1 22),
      recurrence_skips = [SkipStr ''2024-01-08'']\<rparr>"

definition example_event :: Event where
  "example_event =
     \<lparr>event_type = PUBLIC, start_datetime = Some (datetime_new 2024 1 1 0 0), capacity = 0,
      price_cents = 0, is_published = True\<rparr>"

definition limited_event :: Event where
  "limited_event =
     \<lparr>event_type = PUBLIC, start_datetime = Some (datetime_new 2024 1 1 0 0), capacity = 10,
      price_cents = 0, is_published = True\<rparr>"

definition example_form :: RepeatSessionsActionForm where
  "example_form =
     \<lparr>action = ''generate_repeats'', occurrences = Some 2, every_n_weeks = Some 1,
      skip_dates = ''2024-01-08''\<rparr>"

section \<open>Theorems\<close>

lemma confirmed_or_zero:
  "or_zero (aggregate_sum_quantity (filter_status CONFIRMED rows)) = confirmed_total rows"
  by (simp add: or_zero_def aggregate_sum_quantity_def filter_status_def confirmed_total_def)

lemma ClassSession_spots_left_eq:
  "ClassSession_spots_left self bookings = max (int (capacity self) - confirmed_total bookings) 0"
  by (simp add: ClassSession_spots_left_def confirmed_or_zero)

lemma confirmed_total_nonneg: "0 \<le> confirmed_total rows"
  by (simp add: confirmed_total_def)

text \<open>
  C1. For every class session and every integer \<open>q\<close>, \<open>can_accept q\<close> holds exactly when
  \<open>q \<ge> 1\<close> and \<open>spots_left \<ge> q\<close>, where \<open>spots_left\<close> is \<open>max (capacity - S) 0\<close> and
  \<open>S\<close> is the sum of the quantities of the session's CONFIRMED bookings.
\<close>

theorem C1_can_accept_iff:
  "(ClassSession_can_accept self bookings q
      \<longleftrightarrow> q \<ge> 1 \<and> ClassSession_spots_left self bookings \<ge> q)
   \<and> ClassSession_spots_left self bookings
      = max (int (capacity self)
             - int (sum_list (map quantity (filter (\<lambda>b. status b = CONFIRMED) bookings)))) 0"
proof
  show "ClassSession_can_accept self bookings q
          \<longleftrightarrow> q \<ge> 1 \<and> ClassSession_spots_left self bookings \<ge> q"
    unfolding ClassSession_can_accept_def by auto
next
  show "ClassSession_spots_left self bookings
      = max (int (capacity self)
             - int (sum_list (map quantity (filter (\<lambda>b. status b = CONFIRMED) bookings)))) 0"
    using ClassSession_spots_left_eq [of self bookings] by (simp add: confirmed_total_def)
qed

lemma confirmed_total_remove:
  "status b \<noteq> CONFIRMED \<Longrightarrow> confirmed_total (xs @ b # ys) = confirmed_total (xs @ ys)"
  by (simp add: confirmed_total_def)

lemma Event_spots_left_eq:
  "Event_spots_left ev regs =
     (if Event.capacity ev \<le> 0 \<or> \<not> is_public ev then None
      else Some (max (int (Event.capacity ev) - confirmed_total regs) 0))"
  by (simp add: Event_spots_left_def confirmed_or_zero)

text \<open>
  C4, as the specification's data model words it: the committed total is the sum over the
  PENDING and CONFIRMED reservations. The code sums the CONFIRMED rows only: with capacity
  10 and one PENDING reservation of 3, \<open>spots_left\<close> is 10, not 7.
\<close>

theorem C4_counterexample:
  "ClassSession_spots_left example_session [\<lparr>quantity = 3, status = PENDING\<rparr>]
     \<noteq> max (int (capacity example_session)
             - spec_committed_total [\<lparr>quantity = 3, status = PENDING\<rparr>]) 0"
  by (simp add: ClassSession_spots_left_eq confirmed_total_def spec_committed_total_def
      example_session_def)

text \<open>
  C4, amended. For a class session, and for a public event with a positive capacity,
  \<open>spots_left\<close> is \<open>max (capacity - S) 0\<close> with \<open>S\<close> the sum of the quantities of
  the CONFIRMED reservations; a reservation of any other status (PENDING, CANCELLED,
  REFUNDED) can be removed without changing it.
\<close>

theorem C4_only_confirmed_counts:
  "ClassSession_spots_left self bookings
     = max (int (capacity self) - confirmed_total bookings) 0
   \<and> Event_spots_left ev regs
     = (if Event.capacity ev \<le> 0 \<or> \<not> is_public ev then None
        else Some (max (int (Event.capacity ev) - confirmed_total regs) 0))
   \<and> (status b \<noteq> CONFIRMED \<longrightarrow>
        ClassSession_spots_left self (xs @ b # ys) = ClassSession_spots_left self (xs @ ys)
      \<and> Event_spots_left ev (xs @ b # ys) = Event_spots_left ev (xs @ ys))"
  by (simp add: ClassSession_spots_left_eq Event_spots_left_eq confirmed_total_remove)

theorem C4_witness:
  "status \<lparr>quantity = 3, status = PENDING\<rparr> \<noteq> CONFIRMED
   \<and> ClassSession_spots_left example_session
        [\<lparr>quantity = 2, status = CONFIRMED\<rparr>, \<lparr>quantity = 3, status = PENDING\<rparr>] = 8
   \<and> ClassSession_spots_left example_session [\<lparr>quantity = 2, status = CONFIRMED\<rparr>] = 8
   \<and> Event_spots_left limited_event
        [\<lparr>quantity = 2, status = CONFIRMED\<rparr>, \<lparr>quantity = 3, status = PENDING\<rparr>] = Some 8
   \<and> Event_spots_left limited_event [\<lparr>quantity = 2, status = CONFIRMED\<rparr>] = Some 8"
  using C4_only_confirmed_counts
    [of example_session "[\<lparr>quantity = 2, status = CONFIRMED\<rparr>]" limited_event
        "[\<lparr>quantity = 2, status = CONFIRMED\<rparr>]" "\<lparr>quantity = 3, status = PENDING\<rparr>"
        "[\<lparr>quantity = 2, status = CONFIRMED\<rparr>]" "[]"]
  by (simp add: confirmed_total_def example_session_def limited_event_def is_public_def)

text \<open>
  C9. A public event with capacity \<open>\<le> 0\<close> accepts every positive quantity, whatever
  registrations exist.
\<close>

theorem C9_unlimited_event:
  assumes "is_public ev" and "Event.capacity ev \<le> 0" and "q > 0"
  shows "Event_can_accept ev regs q"
  using assms by (simp add: Event_can_accept_def)

theorem C9_witness:
  "is_public example_event \<and> Event.capacity example_event \<le> 0 \<and> (3::int) > 0
   \<and> Event_can_accept example_event [\<lparr>quantity = 5, status = CONFIRMED\<rparr>] 3"
proof -
  have p: "is_public example_event" by (simp add: is_public_def example_event_def)
  have c: "Event.capacity example_event \<le> 0" by (simp add: example_event_def)
  have q: "(3::int) > 0" by simp
  from C9_unlimited_event [OF p c q] p c q show ?thesis by simp
qed

text \<open>
  C10. A class session with capacity 0 has no spots left and accepts no quantity
  \<open>q \<ge> 1\<close>, whatever bookings exist: capacity 0 is not unlimited for class sessions.
\<close>

theorem C10_capacity_zero:
  assumes "capacity self = 0"
  shows "ClassSession_spots_left self bookings = 0
         \<and> (\<forall>q\<ge>1. \<not> ClassSession_can_accept self bookings q)"
  using assms confirmed_total_nonneg [of bookings]
  by (simp add: ClassSession_can_accept_def ClassSession_spots_left_eq)

theorem C10_witness:
  "capacity (example_session\<lparr>capacity := 0\<rparr>) = 0
   \<and> ClassSession_spots_left (example_session\<lparr>capacity := 0\<rparr>) [] = 0
   \<and> \<not> ClassSession_can_accept (example_session\<lparr>capacity := 0\<rparr>) [] 1"
  using C10_capacity_zero [of "example_session\<lparr>capacity := 0\<rparr>" "[]"] by simp

subsection \<open>The temporal gate of the forms\<close>

lemma BookingCreateForm_is_valid_eq:
  "BookingCreateForm_is_valid now bound fv session bookings pq
     = (if bound then Inl RelatedObjectDoesNotExist else Inr False)"
  by (simp add: BookingCreateForm_is_valid_def Booking_clean_def is_ValidationError_def Let_def)

lemma EventRegistrationForm_is_valid_eq:
  "EventRegistrationForm_is_valid now bound fv event regs pq
     = (if bound then Inl RelatedObjectDoesNotExist else Inr False)"
  by (simp add: EventRegistrationForm_is_valid_def EventRegistration_clean_def
      is_ValidationError_def Let_def)

lemma book_session_saves_nothing:
  "snd (book_session now post bound fv s bookings pq) = bookings"
  by (simp add: book_session_def BookingCreateForm_is_valid_eq)

lemma slaybrations_register_saves_nothing:
  "snd (slaybrations_register now post bound fv ev regs pq) = regs"
  by (simp add: slaybrations_register_def EventRegistrationForm_is_valid_eq)

text \<open>
  C8. When the start of the slot is before \<open>now\<close>, \<open>clean\<close> raises a
  \<^verbatim>\<open>ValidationError\<close>, so the form holds an error, \<^verbatim>\<open>is_valid\<close> does not return
  \<open>True\<close> and the view saves no reservation: for a booking of a class session, and for
  a registration to an event whose start is set. (For a bound form \<^verbatim>\<open>is_valid\<close> does
  not return at all: validating the model instance reads its session or event before the
  view has set it, and the \<^verbatim>\<open>RelatedObjectDoesNotExist\<close> leaves the view; see the
  lemmas above.)
\<close>

theorem C8_past_slot_rejected:
  "(start_datetime s < now \<longrightarrow>
      BookingCreateForm_clean now (Some s) bookings q
        = Inl (ValidationError ''This class has already started or finished.'')
    \<and> form_has_errors fv q (BookingCreateForm_clean now (Some s) bookings q)
    \<and> BookingCreateForm_is_valid now bound fv (Some s) bookings pq \<noteq> Inr True
    \<and> snd (book_session now post bound fv s bookings pq) = bookings)
   \<and> (Event.start_datetime ev = Some t \<and> t < now \<longrightarrow>
      (\<exists>msg. EventRegistrationForm_clean now (Some ev) regs q = Inl (ValidationError msg))
    \<and> form_has_errors fv q (EventRegistrationForm_clean now (Some ev) regs q)
    \<and> EventRegistrationForm_is_valid now bound fv (Some ev) regs pq \<noteq> Inr True
    \<and> snd (slaybrations_register now post bound fv ev regs pq) = regs)"
proof (intro conjI impI)
  assume past: "start_datetime s < now"
  then show clean: "BookingCreateForm_clean now (Some s) bookings q
        = Inl (ValidationError ''This class has already started or finished.'')"
    by (simp add: BookingCreateForm_clean_def)
  then show "form_has_errors fv q (BookingCreateForm_clean now (Some s) bookings q)"
    by (simp add: form_has_errors_def)
  show "BookingCreateForm_is_valid now bound fv (Some s) bookings pq \<noteq> Inr True"
    by (simp add: BookingCreateForm_is_valid_eq)
  show "snd (book_session now post bound fv s bookings pq) = bookings"
    by (rule book_session_saves_nothing)
next
  assume past: "Event.start_datetime ev = Some t \<and> t < now"
  then show clean: "\<exists>msg. EventRegistrationForm_clean now (Some ev) regs q
                       = Inl (ValidationError msg)"
    by (simp add: EventRegistrationForm_clean_def)
  then show "form_has_errors fv q (EventRegistrationForm_clean now (Some ev) regs q)"
    by (auto simp: form_has_errors_def)
  show "EventRegistrationForm_is_valid now bound fv (Some ev) regs pq \<noteq> Inr True"
    by (simp add: EventRegistrationForm_is_valid_eq)
  show "snd (slaybrations_register now post bound fv ev regs pq) = regs"
    by (rule slaybrations_register_saves_nothing)
qed

theorem C8_witness:
  "start_datetime example_session < datetime_new 2024 2 1 0 0
   \<and> BookingCreateForm_clean (datetime_new 2024 2 1 0 0) (Some example_session) [] (Some 1)
       = Inl (ValidationError ''This class has already started or finished.'')
   \<and> form_has_errors True (Some 1)
        (BookingCreateForm_clean (datetime_new 2024 2 1 0 0) (Some example_session) [] (Some 1))
   \<and> book_session (datetime_new 2024 2 1 0 0) True True True example_session [] (Some 1)
       = (Inl RelatedObjectDoesNotExist, [])
   \<and> Event.start_datetime example_event = Some (datetime_new 2024 1 1 0 0)
   \<and> datetime_new 2024 1 1 0 0 < datetime_new 2024 2 1 0 0
   \<and> form_has_errors True (Some 1)
        (EventRegistrationForm_clean (datetime_new 2024 2 1 0 0) (Some example_event) []
           (Some 1))
   \<and> slaybrations_register (datetime_new 2024 2 1 0 0) True True True example_event []
        (Some 1)
       = (Inl RelatedObjectDoesNotExist, [])"
proof -
  have past: "datetime_new 2024 1 1 0 0 < datetime_new 2024 2 1 0 0"
    by (simp add: datetime_new_def ymd2ord_def days_before_year_def days_before_month_def
        is_leap_def US_PER_DAY_def)
  have s: "start_datetime example_session = datetime_new 2024 1 1 0 0"
    and e: "Event.start_datetime example_event = Some (datetime_new 2024 1 1 0 0)"
    by (simp_all add: example_session_def example_event_def)
  have views:
    "book_session (datetime_new 2024 2 1 0 0) True True True example_session [] (Some 1)
       = (Inl RelatedObjectDoesNotExist, [])"
    "slaybrations_register (datetime_new 2024 2 1 0 0) True True True example_event []
        (Some 1)
       = (Inl RelatedObjectDoesNotExist, [])"
    by (simp_all add: book_session_def slaybrations_register_def
        BookingCreateForm_is_valid_eq EventRegistrationForm_is_valid_eq)
  note gate = C8_past_slot_rejected
    [where s = example_session and now = "datetime_new 2024 2 1 0 0" and bookings = "[]"
       and q = "Some 1" and fv = True and ev = example_event
       and t = "datetime_new 2024 1 1 0 0" and regs = "[]"
       and bound = True and post = True and pq = "Some 1"]
  from past s have before: "start_datetime example_session < datetime_new 2024 2 1 0 0"
    by simp
  from gate before have booking:
    "BookingCreateForm_clean (datetime_new 2024 2 1 0 0) (Some example_session) [] (Some 1)
       = Inl (ValidationError ''This class has already started or finished.'')"
    "form_has_errors True (Some 1)
       (BookingCreateForm_clean (datetime_new 2024 2 1 0 0) (Some example_session) [] (Some 1))"
    by blast+
  from gate e past have registration:
    "form_has_errors True (Some 1)
       (EventRegistrationForm_clean (datetime_new 2024 2 1 0 0) (Some example_event) []
          (Some 1))"
    by blast
  from before booking e past registration views show ?thesis by blast
qed

subsection \<open>The calendar feed\<close>

lemma range_filters_malformed_start:
  "param_given start_param = Some b \<Longrightarrow> fromisoformat b = None \<Longrightarrow>
   range_filters fromisoformat start_param end_param qs = qs"
  by (simp add: range_filters_def)

text \<open>
  C6 (what the code does). When the \<^verbatim>\<open>start\<close> parameter is given and does not parse,
  no filter on the start is applied at all: the feed lists every published row, the past
  ones included, and not only the rows that start at \<open>now\<close> or later.
\<close>

theorem C6_malformed_start_returns_all_published:
  assumes "param_given start_param = Some b" and "fromisoformat b = None"
  shows "set (calendar_events fromisoformat now start_param end_param st)
           = {s \<in> set st. is_published s}"
  using assms by (simp add: calendar_events_def range_filters_malformed_start)

theorem C6_witness:
  "param_given (Some ''not-a-date'') = Some ''not-a-date''
   \<and> set (calendar_events (\<lambda>s. if s = ''2024-01-01'' then Some (datetime_new 2024 1 1 0 0)
                                 else None)
            (datetime_new 2024 2 1 0 0) (Some ''not-a-date'') None [example_session])
       = {example_session}
   \<and> spec_future_only (datetime_new 2024 2 1 0 0) [example_session] = {}"
proof -
  let ?parse = "\<lambda>s. if s = ''2024-01-01'' then Some (datetime_new 2024 1 1 0 0) else None"
  have past: "datetime_new 2024 1 1 0 0 < datetime_new 2024 2 1 0 0"
    by (simp add: datetime_new_def ymd2ord_def days_before_year_def days_before_month_def
        is_leap_def US_PER_DAY_def)
  have given: "param_given (Some ''not-a-date'') = Some ''not-a-date''"
    by (simp add: param_given_def)
  have malformed: "?parse ''not-a-date'' = None"
    by simp
  have published: "is_published example_session"
    and start: "start_datetime example_session = datetime_new 2024 1 1 0 0"
    by (simp_all add: example_session_def)
  have rows: "{s \<in> set [example_session]. is_published s} = {example_session}"
    using published by auto
  have future: "spec_future_only (datetime_new 2024 2 1 0 0) [example_session] = {}"
    using past start by (auto simp: spec_future_only_def)
  have feed: "set (calendar_events ?parse (datetime_new 2024 2 1 0 0) (Some ''not-a-date'')
                     None [example_session]) = {example_session}"
    using C6_malformed_start_returns_all_published
      [where fromisoformat = ?parse and b = "''not-a-date''"
         and start_param = "Some ''not-a-date''" and st = "[example_session]"
         and now = "datetime_new 2024 2 1 0 0" and end_param = None]
      given malformed rows
    by simp
  from given feed future show ?thesis by blast
qed

subsection \<open>The recurrence loop\<close>

lemma timedelta_weeks_Inr:
  "timedelta_weeks n = Inr step \<Longrightarrow> step = 7 * n * US_PER_DAY"
  by (simp add: timedelta_weeks_def split: if_splits)

lemma datetime_add_Inr: "datetime_add c d = Inr c' \<Longrightarrow> c' = c + d"
  by (simp add: datetime_add_def Let_def split: if_splits)

lemma datetime_date_add_weeks:
  "datetime_date (c + 7 * n * US_PER_DAY) = datetime_date c + 7 * n"
  by (simp add: datetime_date_def US_PER_DAY_def)

lemma recurrence_loop_not_None:
  assumes n1: "1 \<le> recurrence_every_n_weeks self"
  shows "recurrence_loop self dry_run end_date duration skips cursor c k st \<noteq> None"
proof (induction "nat (end_date - datetime_date cursor)" arbitrary: cursor c k st
    rule: less_induct)
  case less
  show ?case
  proof (cases "timedelta_weeks (int (recurrence_every_n_weeks self))")
    case (Inl e)
    then show ?thesis by (subst recurrence_loop.simps) simp
  next
    case step: (Inr step)
    show ?thesis
    proof (cases "datetime_add cursor step")
      case (Inl e)
      with step show ?thesis by (subst recurrence_loop.simps) simp
    next
      case next_cursor: (Inr cursor')
      have date': "datetime_date cursor'
                     = datetime_date cursor + 7 * int (recurrence_every_n_weeks self)"
        using timedelta_weeks_Inr [OF step] datetime_add_Inr [OF next_cursor]
        by (simp add: datetime_date_add_weeks)
      show ?thesis
      proof (cases "end_date < datetime_date cursor'")
        case True
        with step next_cursor show ?thesis by (subst recurrence_loop.simps) simp
      next
        case False
        with date' n1 have "nat (end_date - datetime_date cursor')
                              < nat (end_date - datetime_date cursor)"
          by simp
        then have IH: "recurrence_loop self dry_run end_date duration skips cursor' c' k' st'
                         \<noteq> None" for c' k' st'
          by (rule less.hyps)
        from step next_cursor False show ?thesis
          by (subst recurrence_loop.simps) (use IH in \<open>auto split: sum.splits\<close>)
      qed
    qed
  qed
qed

lemma timedelta_weeks_zero: "timedelta_weeks 0 = Inr 0"
  by (simp add: timedelta_weeks_def MAX_DELTA_DAYS_def)

lemma datetime_add_zero:
  "0 \<le> c \<Longrightarrow> c < MAXORDINAL * US_PER_DAY \<Longrightarrow> datetime_add c 0 = Inr c"
  by (simp add: datetime_add_def)

lemma recurrence_loop_zero_interval:
  assumes n0: "recurrence_every_n_weeks self = 0"
    and valid: "0 \<le> cursor" "cursor < MAXORDINAL * US_PER_DAY"
    and inrange: "datetime_date cursor \<le> end_date"
    and dur: "datetime_date cursor \<in> skips
              \<or> (\<exists>end_dt. datetime_add cursor duration = Inr end_dt)"
  shows "recurrence_loop self dry_run end_date duration skips cursor c k st = None"
proof (rule ccontr)
  assume "recurrence_loop self dry_run end_date duration skips cursor c k st \<noteq> None"
  then obtain y where
    run: "recurrence_loop self dry_run end_date duration skips cursor c k st = Some y"
    by blast
  have "\<not> (recurrence_every_n_weeks self = 0 \<and> 0 \<le> cursor \<and> cursor < MAXORDINAL * US_PER_DAY
            \<and> datetime_date cursor \<le> end_date
            \<and> (datetime_date cursor \<in> skips
                \<or> (\<exists>end_dt. datetime_add cursor duration = Inr end_dt)))"
  proof (rule recurrence_loop.raw_induct
      [where P = "\<lambda>self dry_run end_date duration skips cursor c k st y.
         \<not> (recurrence_every_n_weeks self = 0 \<and> 0 \<le> cursor \<and> cursor < MAXORDINAL * US_PER_DAY
            \<and> datetime_date cursor \<le> end_date
            \<and> (datetime_date cursor \<in> skips
                \<or> (\<exists>end_dt. datetime_add cursor duration = Inr end_dt)))",
       OF _ run])
    fix f :: "ClassSession \<Rightarrow> bool \<Rightarrow> date \<Rightarrow> timedelta \<Rightarrow> date set \<Rightarrow> datetime \<Rightarrow> int \<Rightarrow> int
                \<Rightarrow> store \<Rightarrow> ((error + result) \<times> store) option"
      and self dry_run end_date duration skips cursor c k st y
    assume IH: "\<And>self dry_run end_date duration skips cursor c k st y.
        f self dry_run end_date duration skips cursor c k st = Some y
        \<Longrightarrow> \<not> (recurrence_every_n_weeks self = 0 \<and> 0 \<le> cursor
                \<and> cursor < MAXORDINAL * US_PER_DAY
                \<and> datetime_date cursor \<le> end_date
                \<and> (datetime_date cursor \<in> skips
                    \<or> (\<exists>end_dt. datetime_add cursor duration = Inr end_dt)))"
    assume body: "(case timedelta_weeks (int (recurrence_every_n_weeks self)) of
       Inl e \<Rightarrow> Some (Inl e, st)
     | Inr step \<Rightarrow>
    (case datetime_add cursor step of
       Inl e \<Rightarrow> Some (Inl e, st)
     | Inr cursor' \<Rightarrow>
       if datetime_date cursor' > end_date
       then Some (Inr \<lparr>created = c, skipped = k, reason = ''ok''\<rparr>, st)
       else if datetime_date cursor' \<in> skips
       then f self dry_run end_date duration skips cursor' c (k + 1) st
       else
      (case datetime_add cursor' duration of
         Inl e \<Rightarrow> Some (Inl e, st)
       | Inr end_dt \<Rightarrow>
         if session_exists st (class_type self) cursor'
         then f self dry_run end_date duration skips cursor' c (k + 1) st
         else if dry_run
         then f self dry_run end_date duration skips cursor' (c + 1) k st
         else
        (case objects_create st (occurrence self cursor' end_dt) of
           Inl e \<Rightarrow> Some (Inl e, st)
         | Inr st' \<Rightarrow> f self dry_run end_date duration skips cursor' (c + 1) k st')))) = Some y"
    show "\<not> (recurrence_every_n_weeks self = 0 \<and> 0 \<le> cursor \<and> cursor < MAXORDINAL * US_PER_DAY
            \<and> datetime_date cursor \<le> end_date
            \<and> (datetime_date cursor \<in> skips
                \<or> (\<exists>end_dt. datetime_add cursor duration = Inr end_dt)))"
    proof
      assume inv: "recurrence_every_n_weeks self = 0 \<and> 0 \<le> cursor
            \<and> cursor < MAXORDINAL * US_PER_DAY
            \<and> datetime_date cursor \<le> end_date
            \<and> (datetime_date cursor \<in> skips
                \<or> (\<exists>end_dt. datetime_add cursor duration = Inr end_dt))"
      then have add: "datetime_add cursor 0 = Inr cursor"
        by (simp add: datetime_add_zero)
      from inv body add
      have "\<exists>c' k' st'. f self dry_run end_date duration skips cursor c' k' st' = Some y"
        by (auto simp: timedelta_weeks_zero objects_create_def occurrence_def
            split: if_splits sum.splits)
      then obtain c' k' st'
        where "f self dry_run end_date duration skips cursor c' k' st' = Some y"
        by blast
      from IH [OF this] inv show False by blast
    qed
  qed
  with assms show False by blast
qed

lemma covers_refl: "covers st st ct"
  by (simp add: covers_def)

lemma covers_append: "covers (st @ new) st2 ct \<Longrightarrow> covers st st2 ct"
  by (auto simp: covers_def session_exists_def)

lemma covers_exists: "covers st1 st2 ct \<Longrightarrow> session_exists st1 ct dt \<Longrightarrow> session_exists st2 ct dt"
  by (simp add: covers_def)

lemma session_exists_occurrence:
  "session_exists (st @ occurrence seed dt e # new) (class_type seed) dt"
  by (simp add: session_exists_def occurrence_def)

lemma loop_post_error: "loop_post self dry_run end_date duration skips cursor seen st (Inl e, st)"
  by (simp add: loop_post_def)

lemma loop_post_step:
  assumes rec: "loop_post self dry_run end_date duration skips cursor' (seen + 1) (st @ add) y"
    and add: "\<forall>r \<in> set add. made_from self duration r"
    and unfold: "\<And>st2 c2 k2. \<not> dry_run \<Longrightarrow> covers (snd y) st2 (class_type self) \<Longrightarrow>
        recurrence_loop self dry_run end_date duration skips cursor c2 k2 st2
          = recurrence_loop self dry_run end_date duration skips cursor' c2 (k2 + 1) st2"
  shows "loop_post self dry_run end_date duration skips cursor seen st y"
proof -
  from rec obtain new where new: "snd y = (st @ add) @ new"
    and rows: "\<forall>r \<in> set new. made_from self duration r"
    unfolding loop_post_def by blast
  have ext: "\<exists>new'. snd y = st @ new' \<and> (\<forall>r \<in> set new'. made_from self duration r)"
    using new rows add by (intro exI [of _ "add @ new"]) auto
  have again: "recurrence_loop self dry_run end_date duration skips cursor c2 k2 st2
                 = Some (Inr \<lparr>created = c2,
                              skipped = k2 + (created res + skipped res - seen),
                              reason = ''ok''\<rparr>, st2)"
    if res: "fst y = Inr res" and wet: "\<not> dry_run"
      and cov: "covers (snd y) st2 (class_type self)" for res st2 c2 k2
  proof -
    from rec res wet cov
    have "recurrence_loop self dry_run end_date duration skips cursor' c2 (k2 + 1) st2
            = Some (Inr \<lparr>created = c2,
                         skipped = (k2 + 1) + (created res + skipped res - (seen + 1)),
                         reason = ''ok''\<rparr>, st2)"
      unfolding loop_post_def by blast
    with unfold [OF wet cov] show ?thesis by simp
  qed
  from rec have "\<forall>res. fst y = Inr res \<longrightarrow> reason res = ''ok''"
    unfolding loop_post_def by blast
  with ext again show ?thesis unfolding loop_post_def by blast
qed

lemma recurrence_loop_post:
  assumes "recurrence_loop self dry_run end_date duration skips cursor c k st = Some y"
  shows "loop_post self dry_run end_date duration skips cursor (c + k) st y"
proof (rule recurrence_loop.raw_induct
    [where P = "\<lambda>self dry_run end_date duration skips cursor c k st y.
                  loop_post self dry_run end_date duration skips cursor (c + k) st y",
     OF _ assms])
  fix f self dry_run end_date duration skips cursor and c k :: int
    and st :: store and y :: "(error + result) \<times> store"
  assume IH: "\<And>self dry_run end_date duration skips cursor c k st y.
      f self dry_run end_date duration skips cursor c k st = Some y
      \<Longrightarrow> loop_post self dry_run end_date duration skips cursor (c + k) st y"
  assume run: "(case timedelta_weeks (int (recurrence_every_n_weeks self)) of
     Inl e \<Rightarrow> Some (Inl e, st)
   | Inr step \<Rightarrow>
  (case datetime_add cursor step of
     Inl e \<Rightarrow> Some (Inl e, st)
   | Inr cursor' \<Rightarrow>
     if datetime_date cursor' > end_date
     then Some (Inr \<lparr>created = c, skipped = k, reason = ''ok''\<rparr>, st)
     else if datetime_date cursor' \<in> skips
     then f self dry_run end_date duration skips cursor' c (k + 1) st
     else
    (case datetime_add cursor' duration of
       Inl e \<Rightarrow> Some (Inl e, st)
     | Inr end_dt \<Rightarrow>
       if session_exists st (class_type self) cursor'
       then f self dry_run end_date duration skips cursor' c (k + 1) st
       else if dry_run
       then f self dry_run end_date duration skips cursor' (c + 1) k st
       else
      (case objects_create st (occurrence self cursor' end_dt) of
         Inl e \<Rightarrow> Some (Inl e, st)
       | Inr st' \<Rightarrow> f self dry_run end_date duration skips cursor' (c + 1) k st')))) = Some y"
  show "loop_post self dry_run end_date duration skips cursor (c + k) st y"
  proof (cases "timedelta_weeks (int (recurrence_every_n_weeks self))")
    case (Inl e)
    with run show ?thesis by (auto simp: loop_post_error)
  next
    case step: (Inr step)
    show ?thesis
    proof (cases "datetime_add cursor step")
      case (Inl e)
      with run step show ?thesis by (auto simp: loop_post_error)
    next
      case next_cursor: (Inr cursor')
      show ?thesis
      proof (cases "end_date < datetime_date cursor'")
        case True
        with run step next_cursor
        have y: "y = (Inr \<lparr>created = c, skipped = k, reason = ''ok''\<rparr>, st)"
          by auto
        have "recurrence_loop self dry_run end_date duration skips cursor c2 k2 st2
               = Some (Inr \<lparr>created = c2, skipped = k2, reason = ''ok''\<rparr>, st2)" for c2 k2 st2
          using step next_cursor True by (subst recurrence_loop.simps) simp
        with y show ?thesis by (auto simp: loop_post_def)
      next
        case inrange: False
        show ?thesis
        proof (cases "datetime_date cursor' \<in> skips")
          case True
          with run step next_cursor inrange
          have "f self dry_run end_date duration skips cursor' c (k + 1) st = Some y"
            by simp
          from IH [OF this]
          have rec: "loop_post self dry_run end_date duration skips cursor' (c + k + 1) (st @ []) y"
            by (simp add: add.assoc)
          show ?thesis
          proof (rule loop_post_step [OF rec])
            show "\<forall>r \<in> set []. made_from self duration r" by simp
          next
            fix st2 c2 k2
            show "recurrence_loop self dry_run end_date duration skips cursor c2 k2 st2
               = recurrence_loop self dry_run end_date duration skips cursor' c2 (k2 + 1) st2"
              using step next_cursor inrange True by (subst recurrence_loop.simps) simp
          qed
        next
          case noskip: False
          show ?thesis
          proof (cases "datetime_add cursor' duration")
            case (Inl e)
            with run step next_cursor inrange noskip show ?thesis
              by (auto simp: loop_post_error)
          next
            case end_dt: (Inr end_dt)
            have unfold: "recurrence_loop self dry_run end_date duration skips cursor c2 k2 st2
               = recurrence_loop self dry_run end_date duration skips cursor' c2 (k2 + 1) st2"
              if "session_exists st2 (class_type self) cursor'" for c2 k2 st2
              using step next_cursor inrange noskip end_dt that
              by (subst recurrence_loop.simps) simp
            show ?thesis
            proof (cases "session_exists st (class_type self) cursor'")
              case True
              with run step next_cursor inrange noskip end_dt
              have "f self dry_run end_date duration skips cursor' c (k + 1) st = Some y"
                by simp
              from IH [OF this]
              have rec: "loop_post self dry_run end_date duration skips cursor' (c + k + 1)
                           (st @ []) y"
                by (simp add: add.assoc)
              then obtain new where new: "snd y = st @ new"
                unfolding loop_post_def by auto
              show ?thesis
              proof (rule loop_post_step [OF rec])
                show "\<forall>r \<in> set []. made_from self duration r" by simp
              next
                fix st2 c2 k2
                assume "covers (snd y) st2 (class_type self)"
                then have "session_exists st2 (class_type self) cursor'"
                  unfolding new by (rule covers_exists [OF covers_append True])
                then show "recurrence_loop self dry_run end_date duration skips cursor c2 k2 st2
                   = recurrence_loop self dry_run end_date duration skips cursor' c2 (k2 + 1) st2"
                  by (rule unfold)
              qed
            next
              case fresh: False
              show ?thesis
              proof (cases dry_run)
                case True
                with run step next_cursor inrange noskip end_dt fresh
                have "f self dry_run end_date duration skips cursor' (c + 1) k st = Some y"
                  by simp
                from IH [OF this]
                have rec: "loop_post self dry_run end_date duration skips cursor' (c + k + 1)
                             (st @ []) y"
                  by (simp add: add.commute add.left_commute)
                show ?thesis
                  by (rule loop_post_step [OF rec]) (simp_all add: True)
              next
                case False
                let ?row = "occurrence self cursor' end_dt"
                from fresh have create: "objects_create st ?row = Inr (st @ [?row])"
                  by (simp add: objects_create_def occurrence_def)
                with run step next_cursor inrange noskip end_dt fresh False
                have "f self dry_run end_date duration skips cursor' (c + 1) k (st @ [?row])
                        = Some y"
                  by simp
                from IH [OF this]
                have rec: "loop_post self dry_run end_date duration skips cursor' (c + k + 1)
                             (st @ [?row]) y"
                  by (simp add: add.commute add.left_commute)
                then obtain new where new: "snd y = st @ ?row # new"
                  unfolding loop_post_def by auto
                show ?thesis
                proof (rule loop_post_step [OF rec])
                  show "\<forall>r \<in> set [?row]. made_from self duration r"
                    using datetime_add_Inr [OF end_dt] by (simp add: made_from_def occurrence_def)
                next
                  fix st2 c2 k2
                  assume "covers (snd y) st2 (class_type self)"
                  then have "session_exists st2 (class_type self) cursor'"
                    unfolding new by (rule covers_exists [OF _ session_exists_occurrence])
                  then show "recurrence_loop self dry_run end_date duration skips cursor c2 k2 st2
                     = recurrence_loop self dry_run end_date duration skips cursor' c2 (k2 + 1) st2"
                    by (rule unfold)
                qed
              qed
            qed
          qed
        qed
      qed
    qed
  qed
qed


subsection \<open>The example of the specification\<close>

lemmas calendar_defs =
  datetime_new_def ymd2ord_def days_before_year_def days_before_month_def is_leap_def
  US_PER_DAY_def MAXORDINAL_def MAX_DELTA_DAYS_def timedelta_weeks_def datetime_add_def
  datetime_date_def

lemma strptime_example: "strptime_date ''2024-01-08'' = Some (ymd2ord 2024 1 8)"
  by (simp add: strptime_date_def is_digit_def is_digit19_def digit_val_def date_new_def
      days_in_month_def ymd2ord_def days_before_year_def days_before_month_def is_leap_def)

lemma skip_set_example: "skip_set example_session = {ymd2ord 2024 1 8}"
  by (simp add: skip_set_def skip_add_def example_session_def strptime_example)

lemma example_fields:
  "start_datetime example_session = datetime_new 2024 1 1 0 0"
  "end_datetime example_session = datetime_new 2024 1 1 1 0"
  "recurrence_enabled example_session"
  "recurrence_every_n_weeks example_session = 1"
  "recurrence_until example_session = Some (ymd2ord 2024 1 22)"
  by (simp_all add: example_session_def)

lemma example_run:
  assumes start: "start_datetime seed = datetime_new 2024 1 1 0 0"
    and finish: "end_datetime seed = datetime_new 2024 1 1 1 0"
    and enabled: "recurrence_enabled seed"
    and weekly: "recurrence_every_n_weeks seed = 1"
    and until: "recurrence_until seed = Some (ymd2ord 2024 1 22)"
    and skips: "skip_set seed = {ymd2ord 2024 1 8}"
    and alone: "\<forall>r \<in> set st. class_type r = class_type seed
                  \<longrightarrow> start_datetime r = start_datetime seed"
  shows "generate_recurrences seed default_weeks False st
           = Some (Inr \<lparr>created = 2, skipped = 1, reason = ''ok''\<rparr>,
                   st @ [occurrence seed (datetime_new 2024 1 15 0 0) (datetime_new 2024 1 15 1 0),
                         occurrence seed (datetime_new 2024 1 22 0 0) (datetime_new 2024 1 22 1 0)])"
proof -
  let ?d = "end_datetime seed - start_datetime seed"
  let ?loop = "recurrence_loop seed False (ymd2ord 2024 1 22) ?d {ymd2ord 2024 1 8}"
  let ?r15 = "occurrence seed (datetime_new 2024 1 15 0 0) (datetime_new 2024 1 15 1 0)"
  let ?r22 = "occurrence seed (datetime_new 2024 1 22 0 0) (datetime_new 2024 1 22 1 0)"
  have no15: "\<not> session_exists st (class_type seed) (datetime_new 2024 1 15 0 0)"
    using alone start by (auto simp: session_exists_def calendar_defs)
  have no22: "\<not> session_exists (st @ [?r15]) (class_type seed) (datetime_new 2024 1 22 0 0)"
    using alone start by (auto simp: session_exists_def occurrence_def calendar_defs)
  have step4: "?loop (datetime_new 2024 1 22 0 0) 2 1 (st @ [?r15, ?r22])
                 = Some (Inr \<lparr>created = 2, skipped = 1, reason = ''ok''\<rparr>, st @ [?r15, ?r22])"
    by (subst recurrence_loop.simps) (simp add: weekly calendar_defs)
  have step3: "?loop (datetime_new 2024 1 15 0 0) 1 1 (st @ [?r15])
                 = ?loop (datetime_new 2024 1 22 0 0) 2 1 (st @ [?r15, ?r22])"
    apply (subst recurrence_loop.simps)
    using no22 apply (simp add: weekly start finish objects_create_def calendar_defs)
    apply (simp add: occurrence_def calendar_defs)
    done
  have step2: "?loop (datetime_new 2024 1 8 0 0) 0 1 st
                 = ?loop (datetime_new 2024 1 15 0 0) 1 1 (st @ [?r15])"
    apply (subst recurrence_loop.simps)
    using no15 apply (simp add: weekly start finish objects_create_def calendar_defs)
    apply (simp add: occurrence_def calendar_defs)
    done
  have step1: "?loop (datetime_new 2024 1 1 0 0) 0 0 st
                 = ?loop (datetime_new 2024 1 8 0 0) 0 1 st"
    by (subst recurrence_loop.simps) (simp add: weekly calendar_defs)
  have range: "\<not> ymd2ord 2024 1 22 < datetime_date (start_datetime seed)"
    by (simp add: start calendar_defs)
  show ?thesis
    unfolding generate_recurrences_def resolve_end_date_def
    using range by (simp add: enabled until skips start [symmetric] step1 [unfolded start [symmetric]] step2 step3 step4)
qed


lemma example_first_run:
  "generate_recurrences example_session 12 False [example_session]
     = Some (Inr \<lparr>created = 2, skipped = 1, reason = ''ok''\<rparr>,
             [example_session,
              occurrence example_session (datetime_new 2024 1 15 0 0) (datetime_new 2024 1 15 1 0),
              occurrence example_session (datetime_new 2024 1 22 0 0) (datetime_new 2024 1 22 1 0)])"
proof -
  have alone: "\<forall>r \<in> set [example_session]. class_type r = class_type example_session
                 \<longrightarrow> start_datetime r = start_datetime example_session"
    by simp
  from example_run [OF example_fields skip_set_example alone, of 12]
  show ?thesis by simp
qed

text \<open>
  C2. A seed that starts 2024-01-01 00:00 and ends 01:00, repeats every week until
  2024-01-22 and skips 2024-01-08, run on a table with no other row of its class type:
  two rows are created, starting 2024-01-15 and 2024-01-22, and the result is
  created = 2, skipped = 1, reason ok.
\<close>

theorem C2_example_run:
  assumes start: "start_datetime seed = datetime_new 2024 1 1 0 0"
    and finish: "end_datetime seed = datetime_new 2024 1 1 1 0"
    and enabled: "recurrence_enabled seed"
    and weekly: "recurrence_every_n_weeks seed = 1"
    and until: "recurrence_until seed = Some (ymd2ord 2024 1 22)"
    and skips: "skip_set seed = {ymd2ord 2024 1 8}"
    and alone: "\<forall>r \<in> set st. class_type r = class_type seed
                  \<longrightarrow> start_datetime r = start_datetime seed"
  shows "generate_recurrences seed default_weeks False st
           = Some (Inr \<lparr>created = 2, skipped = 1, reason = ''ok''\<rparr>,
                   st @ [occurrence seed (datetime_new 2024 1 15 0 0) (datetime_new 2024 1 15 1 0),
                         occurrence seed (datetime_new 2024 1 22 0 0) (datetime_new 2024 1 22 1 0)])"
  using assms by (rule example_run)

theorem C2_witness:
  "generate_recurrences example_session 12 False [example_session]
     = Some (Inr \<lparr>created = 2, skipped = 1, reason = ''ok''\<rparr>,
             [example_session,
              occurrence example_session (datetime_new 2024 1 15 0 0) (datetime_new 2024 1 15 1 0),
              occurrence example_session (datetime_new 2024 1 22 0 0) (datetime_new 2024 1 22 1 0)])"
proof -
  have alone: "\<forall>r \<in> set [example_session]. class_type r = class_type example_session
                 \<longrightarrow> start_datetime r = start_datetime example_session"
    by simp
  from C2_example_run [OF example_fields skip_set_example alone, of 12]
  show ?thesis by simp
qed

subsection \<open>Running the generator twice\<close>

lemma example_dry_run:
  "generate_recurrences example_session 12 True []
     = Some (Inr \<lparr>created = 2, skipped = 1, reason = ''ok''\<rparr>, [])"
proof -
  let ?d = "end_datetime example_session - start_datetime example_session"
  let ?loop = "recurrence_loop example_session True (ymd2ord 2024 1 22) ?d {ymd2ord 2024 1 8}"
  have step4: "?loop (datetime_new 2024 1 22 0 0) 2 1 []
                 = Some (Inr \<lparr>created = 2, skipped = 1, reason = ''ok''\<rparr>, [])"
    by (subst recurrence_loop.simps) (simp add: example_fields calendar_defs)
  have step3: "?loop (datetime_new 2024 1 15 0 0) 1 1 [] = ?loop (datetime_new 2024 1 22 0 0) 2 1 []"
    by (subst recurrence_loop.simps)
      (simp add: example_fields session_exists_def calendar_defs)
  have step2: "?loop (datetime_new 2024 1 8 0 0) 0 1 [] = ?loop (datetime_new 2024 1 15 0 0) 1 1 []"
    by (subst recurrence_loop.simps)
      (simp add: example_fields session_exists_def calendar_defs)
  have step1: "?loop (datetime_new 2024 1 1 0 0) 0 0 [] = ?loop (datetime_new 2024 1 8 0 0) 0 1 []"
    by (subst recurrence_loop.simps) (simp add: example_fields calendar_defs)
  have range: "\<not> ymd2ord 2024 1 22 < datetime_date (start_datetime example_session)"
    by (simp add: example_fields calendar_defs)
  show ?thesis
    unfolding generate_recurrences_def resolve_end_date_def
    using range
    by (simp add: example_fields(3,5) skip_set_example
        step1 [unfolded example_fields(1) [symmetric]] step2 step3 step4)
qed

text \<open>
  C3, as stated, fails for a dry run: nothing is stored, so the second run with the same
  parameters reports the same two occurrences as created again.
\<close>

theorem C3_counterexample:
  "rerun example_session 12 True []
     = Some (Inr \<lparr>created = 2, skipped = 1, reason = ''ok''\<rparr>, [])"
  by (simp add: rerun_def example_dry_run)

lemma generate_recurrences_returns:
  assumes "1 \<le> recurrence_every_n_weeks self"
  shows "generate_recurrences self default_weeks dry_run st \<noteq> None"
proof (cases "resolve_end_date self default_weeks")
  case (Inl e)
  then show ?thesis by (simp add: generate_recurrences_def)
next
  case (Inr end_date)
  from recurrence_loop_not_None [OF assms] Inr show ?thesis
    unfolding generate_recurrences_def by simp
qed

lemma generate_recurrences_again:
  assumes run: "generate_recurrences self default_weeks False st = Some (Inr res, st1)"
  shows "generate_recurrences self default_weeks False st1
           = Some (Inr \<lparr>created = 0, skipped = created res + skipped res, reason = reason res\<rparr>,
                   st1)"
proof (cases "recurrence_enabled self")
  case False
  with run show ?thesis by (auto simp: generate_recurrences_def)
next
  case enabled: True
  show ?thesis
  proof (cases "resolve_end_date self default_weeks")
    case (Inl e)
    with run enabled show ?thesis by (simp add: generate_recurrences_def)
  next
    case (Inr end_date)
    show ?thesis
    proof (cases "end_date < datetime_date (start_datetime self)")
      case True
      with run enabled Inr show ?thesis by (auto simp: generate_recurrences_def)
    next
      case False
      let ?loop = "recurrence_loop self False end_date
                     (end_datetime self - start_datetime self) (skip_set self)
                     (start_datetime self)"
      from run enabled Inr False have first: "?loop 0 0 st = Some (Inr res, st1)"
        by (simp add: generate_recurrences_def)
      from recurrence_loop_post [OF first]
      have "?loop 0 0 st1
              = Some (Inr \<lparr>created = 0, skipped = 0 + (created res + skipped res - (0 + 0)),
                           reason = ''ok''\<rparr>, st1)"
        unfolding loop_post_def using covers_refl [of st1 "class_type self"] by simp
      moreover from recurrence_loop_post [OF first] have "reason res = ''ok''"
        unfolding loop_post_def by simp
      ultimately show ?thesis
        using enabled Inr False by (simp add: generate_recurrences_def)
    qed
  qed
qed


text \<open>
  C3, amended. With \<open>dry_run = False\<close>: whenever the first run returns its dictionary,
  the second run with the same parameters, on the table the first run left, returns
  created = 0 and counts everything the first run created or skipped as skipped; the first
  run does return (a dictionary or an exception) whenever the interval is at least one week.
\<close>

theorem C3_rerun_creates_nothing:
  "(generate_recurrences self default_weeks False st = Some (Inr res, st1) \<longrightarrow>
      rerun self default_weeks False st
        = Some (Inr \<lparr>created = 0, skipped = created res + skipped res, reason = reason res\<rparr>,
                st1))
   \<and> (1 \<le> recurrence_every_n_weeks self \<longrightarrow>
        generate_recurrences self default_weeks False st \<noteq> None)"
  by (simp add: rerun_def generate_recurrences_again generate_recurrences_returns)

theorem C3_witness:
  "rerun example_session 12 False [example_session]
     = Some (Inr \<lparr>created = 0, skipped = 3, reason = ''ok''\<rparr>,
             [example_session,
              occurrence example_session (datetime_new 2024 1 15 0 0) (datetime_new 2024 1 15 1 0),
              occurrence example_session (datetime_new 2024 1 22 0 0) (datetime_new 2024 1 22 1 0)])"
  using C3_rerun_creates_nothing
    [of example_session 12 "[example_session]" "\<lparr>created = 2, skipped = 1, reason = ''ok''\<rparr>"]
    example_first_run
  by simp

subsection \<open>An interval of zero weeks\<close>

lemma generate_recurrences_zero_interval:
  assumes "recurrence_enabled self" and "recurrence_every_n_weeks self = 0"
    and "resolve_end_date self default_weeks = Inr end_date"
    and "datetime_date (start_datetime self) \<le> end_date"
    and "0 \<le> start_datetime self" and "start_datetime self < MAXORDINAL * US_PER_DAY"
    and "0 \<le> end_datetime self" and "end_datetime self < MAXORDINAL * US_PER_DAY"
  shows "generate_recurrences self default_weeks dry_run st = None"
proof -
  have "datetime_add (start_datetime self) (end_datetime self - start_datetime self)
          = Inr (end_datetime self)"
    using assms by (simp add: datetime_add_def)
  then have "recurrence_loop self dry_run end_date (end_datetime self - start_datetime self)
               (skip_set self) (start_datetime self) 0 0 st = None"
    using assms by (intro recurrence_loop_zero_interval) auto
  with assms show ?thesis by (simp add: generate_recurrences_def)
qed

text \<open>
  C5 (what the code does). \<^verbatim>\<open>generate_recurrences\<close> does not check the interval: for the
  example seed with \<^verbatim>\<open>recurrence_every_n_weeks = 0\<close> the cursor never moves and the loop
  never leaves. (The batch variant is a \<^verbatim>\<open>for\<close> loop over a finite range, behind a form
  that requires \<^verbatim>\<open>every_n_weeks >= 1\<close>; the function \<open>generate_repeats\<close> is total.)
\<close>

theorem C5_zero_interval_never_returns:
  "generate_recurrences (example_session\<lparr>recurrence_every_n_weeks := 0\<rparr>) 12 False
     [example_session\<lparr>recurrence_every_n_weeks := 0\<rparr>] = None"
proof (rule generate_recurrences_zero_interval)
  let ?seed = "example_session\<lparr>recurrence_every_n_weeks := 0\<rparr>"
  show "recurrence_enabled ?seed" "recurrence_every_n_weeks ?seed = 0"
    by (simp_all add: example_session_def)
  show "resolve_end_date ?seed 12 = Inr (ymd2ord 2024 1 22)"
    by (simp add: resolve_end_date_def example_session_def)
  show "datetime_date (start_datetime ?seed) \<le> ymd2ord 2024 1 22"
    by (simp add: example_session_def calendar_defs)
  show "0 \<le> start_datetime ?seed" "start_datetime ?seed < MAXORDINAL * US_PER_DAY"
    "0 \<le> end_datetime ?seed" "end_datetime ?seed < MAXORDINAL * US_PER_DAY"
    by (simp_all add: example_session_def calendar_defs)
qed

subsection \<open>The duration of the created rows\<close>

lemma repeat_occurrences_rows:
  "repeat_occurrences seed interval skips duration idxs c k st = (out, st')
   \<Longrightarrow> \<exists>new. st' = st @ new \<and> (\<forall>r \<in> set new. made_from seed duration r)"
proof (induction idxs arbitrary: c k st)
  case Nil
  then show ?case by simp
next
  case (Cons i rest)
  show ?case
  proof (cases "timedelta_weeks (interval * i)")
    case (Inl e)
    with Cons.prems show ?thesis by simp
  next
    case delta: (Inr delta)
    show ?thesis
    proof (cases "datetime_add (start_datetime seed) delta")
      case (Inl e)
      with Cons.prems delta show ?thesis by simp
    next
      case start_dt: (Inr start_dt)
      show ?thesis
      proof (cases "datetime_date start_dt \<in> skips")
        case True
        with Cons.prems delta start_dt
        have "repeat_occurrences seed interval skips duration rest c (k + 1) st = (out, st')"
          by simp
        then show ?thesis by (rule Cons.IH)
      next
        case noskip: False
        show ?thesis
        proof (cases "datetime_add start_dt duration")
          case (Inl e)
          with Cons.prems delta start_dt noskip show ?thesis by simp
        next
          case end_dt: (Inr end_dt)
          show ?thesis
          proof (cases "session_exists st (class_type seed) start_dt")
            case True
            with Cons.prems delta start_dt noskip end_dt
            have "repeat_occurrences seed interval skips duration rest c (k + 1) st = (out, st')"
              by simp
            then show ?thesis by (rule Cons.IH)
          next
            case False
            let ?row = "occurrence seed start_dt end_dt"
            from False have "objects_create st ?row = Inr (st @ [?row])"
              by (simp add: objects_create_def occurrence_def)
            with Cons.prems delta start_dt noskip end_dt False
            have "repeat_occurrences seed interval skips duration rest (c + 1) k (st @ [?row])
                    = (out, st')"
              by simp
            from Cons.IH [OF this] obtain new where new: "st' = (st @ [?row]) @ new"
              and rows: "\<forall>r \<in> set new. made_from seed duration r"
              by blast
            have "made_from seed duration ?row"
              using datetime_add_Inr [OF end_dt] by (simp add: made_from_def occurrence_def)
            with new rows show ?thesis by (intro exI [of _ "?row # new"]) simp
          qed
        qed
      qed
    qed
  qed
qed

lemma repeat_seeds_rows:
  "repeat_seeds seeds n_occ interval skips c k st = (out, st')
   \<Longrightarrow> \<exists>new. st' = st @ new
         \<and> (\<forall>r \<in> set new. \<exists>seed \<in> set seeds.
               made_from seed (end_datetime seed - start_datetime seed) r)"
proof (induction seeds arbitrary: c k st)
  case Nil
  then show ?case by simp
next
  case (Cons seed seeds)
  obtain out1 st1 where inner:
    "repeat_occurrences seed interval skips (end_datetime seed - start_datetime seed)
       [1..n_occ] c k st = (out1, st1)"
    by (cases "repeat_occurrences seed interval skips (end_datetime seed - start_datetime seed)
                 [1..n_occ] c k st")
  from repeat_occurrences_rows [OF inner] obtain new1 where new1: "st1 = st @ new1"
    and rows1: "\<forall>r \<in> set new1. made_from seed (end_datetime seed - start_datetime seed) r"
    by blast
  show ?case
  proof (cases out1)
    case (Inl e)
    with Cons.prems inner have "st' = st1" by simp
    with new1 rows1 show ?thesis by auto
  next
    case (Inr ck)
    with Cons.prems inner
    have "repeat_seeds seeds n_occ interval skips (fst ck) (snd ck) st1 = (out, st')"
      by (simp add: case_prod_beta)
    from Cons.IH [OF this] obtain new2 where new2: "st' = st1 @ new2"
      and rows2: "\<forall>r \<in> set new2. \<exists>s \<in> set seeds.
                    made_from s (end_datetime s - start_datetime s) r"
      by blast
    from new1 new2 rows1 rows2 show ?thesis
      by (intro exI [of _ "new1 @ new2"]) auto
  qed
qed

lemma form_never_valid: "\<not> form_is_valid form"
  by (simp add: form_is_valid_def choice_valid_def action_choices_def)

lemma generate_repeats_invalid: "generate_repeats form queryset st = (Inr InvalidOptions, st)"
  by (simp add: generate_repeats_def form_never_valid)

lemma generate_repeats_rows:
  assumes "generate_repeats form queryset st = (out, st')"
  shows "\<exists>new. st' = st @ new
         \<and> (\<forall>r \<in> set new. \<exists>seed \<in> set queryset.
               made_from seed (end_datetime seed - start_datetime seed) r)"
  using assms by (simp add: generate_repeats_invalid)

lemma generate_recurrences_rows:
  assumes "generate_recurrences seed default_weeks dry_run st = Some (out, st')"
  shows "\<exists>new. st' = st @ new
         \<and> (\<forall>r \<in> set new. made_from seed (end_datetime seed - start_datetime seed) r)"
proof (cases "recurrence_enabled seed")
  case False
  with assms show ?thesis by (simp add: generate_recurrences_def)
next
  case enabled: True
  show ?thesis
  proof (cases "resolve_end_date seed default_weeks")
    case (Inl e)
    with assms enabled show ?thesis by (simp add: generate_recurrences_def)
  next
    case (Inr end_date)
    show ?thesis
    proof (cases "end_date < datetime_date (start_datetime seed)")
      case True
      with assms enabled Inr show ?thesis by (simp add: generate_recurrences_def)
    next
      case False
      with assms enabled Inr
      have "recurrence_loop seed dry_run end_date (end_datetime seed - start_datetime seed)
              (skip_set seed) (start_datetime seed) 0 0 st = Some (out, st')"
        by (simp add: generate_recurrences_def)
      from recurrence_loop_post [OF this] show ?thesis
        unfolding loop_post_def by simp
    qed
  qed
qed

text \<open>The loop is the iteration of \<open>loop_pass\<close>, and each pass adds at most one row, made
  from the seed.\<close>

lemma recurrence_loop_pass:
  "recurrence_loop self dry_run end_date duration skips cursor c k st
     = (case loop_pass self dry_run end_date duration skips cursor c k st of
          Inl y \<Rightarrow> Some y
        | Inr (cursor', c', k', st') \<Rightarrow>
            recurrence_loop self dry_run end_date duration skips cursor' c' k' st')"
  by (subst recurrence_loop.simps) (simp add: loop_pass_def split: sum.splits)

lemma passes_leaves:
  "passes n self dry_run end_date duration skips (cursor, c, k, st) = Inl y
   \<Longrightarrow> recurrence_loop self dry_run end_date duration skips cursor c k st = Some y"
proof (induction n arbitrary: cursor c k st)
  case 0
  then show ?case by simp
next
  case (Suc n)
  show ?case
  proof (cases "loop_pass self dry_run end_date duration skips cursor c k st")
    case (Inl y')
    with Suc.prems show ?thesis by (simp add: recurrence_loop_pass)
  next
    case (Inr s')
    obtain cursor' c' k' st' where s': "s' = (cursor', c', k', st')"
      by (cases s') auto
    with Suc.prems Inr
    have "passes n self dry_run end_date duration skips (cursor', c', k', st') = Inl y"
      by simp
    from Suc.IH [OF this] Inr s' show ?thesis by (simp add: recurrence_loop_pass)
  qed
qed

lemma loop_pass_leaves:
  "loop_pass self dry_run end_date duration skips cursor c k st = Inl (out, st') \<Longrightarrow> st' = st"
  by (auto simp: loop_pass_def split: sum.splits if_splits)

lemma loop_pass_continues:
  assumes "loop_pass self dry_run end_date duration skips cursor c k st
             = Inr (cursor', c', k', st')"
  shows "\<exists>add. st' = st @ add \<and> (\<forall>r \<in> set add. made_from self duration r)"
proof (cases "st' = st")
  case True
  then show ?thesis by (intro exI [of _ "[]"]) simp
next
  case False
  with assms obtain step end_dt where
    cur: "datetime_add cursor step = Inr cursor'"
    and fin: "datetime_add cursor' duration = Inr end_dt"
    and st': "st' = st @ [occurrence self cursor' end_dt]"
    by (auto simp: loop_pass_def objects_create_def split: sum.splits if_splits)
  have "made_from self duration (occurrence self cursor' end_dt)"
    using datetime_add_Inr [OF fin] by (simp add: made_from_def occurrence_def)
  with st' show ?thesis by (intro exI [of _ "[occurrence self cursor' end_dt]"]) simp
qed

lemma passes_rows:
  "\<exists>new. table_of (passes n self dry_run end_date duration skips (cursor, c, k, st)) = st @ new
         \<and> (\<forall>r \<in> set new. made_from self duration r)"
proof (induction n arbitrary: cursor c k st)
  case 0
  show ?case by (intro exI [of _ "[]"]) (simp add: table_of_def)
next
  case (Suc n)
  show ?case
  proof (cases "loop_pass self dry_run end_date duration skips cursor c k st")
    case (Inl y)
    obtain out st' where y: "y = (out, st')" by (cases y) auto
    with Inl have "st' = st" by (simp add: loop_pass_leaves)
    with Inl y show ?thesis by (intro exI [of _ "[]"]) (simp add: table_of_def)
  next
    case (Inr s')
    obtain cursor' c' k' st' where s': "s' = (cursor', c', k', st')"
      by (cases s') auto
    from loop_pass_continues [OF Inr [unfolded s']] obtain add where
      add: "st' = st @ add" "\<forall>r \<in> set add. made_from self duration r"
      by blast
    from Suc.IH [of cursor' c' k' st'] obtain new where
      new: "table_of (passes n self dry_run end_date duration skips (cursor', c', k', st'))
              = st' @ new"
        "\<forall>r \<in> set new. made_from self duration r"
      by blast
    from Inr s' add new show ?thesis by (intro exI [of _ "add @ new"]) auto
  qed
qed

lemma table_after_loop:
  assumes "recurrence_enabled self" and "resolve_end_date self default_weeks = Inr end_date"
    and "\<not> end_date < datetime_date (start_datetime self)"
  shows "table_after n self default_weeks dry_run st
           = table_of (passes n self dry_run end_date
                         (end_datetime self - start_datetime self) (skip_set self)
                         (start_datetime self, 0, 0, st))"
  using assms by (simp add: table_after_def)

lemma table_after_rows:
  "\<exists>new. table_after n seed default_weeks dry_run st = st @ new
         \<and> (\<forall>r \<in> set new. made_from seed (end_datetime seed - start_datetime seed) r)"
proof -
  have same: "\<exists>new. st = st @ new
         \<and> (\<forall>r \<in> set new. made_from seed (end_datetime seed - start_datetime seed) r)"
    by (intro exI [of _ "[]"]) simp
  show ?thesis
    unfolding table_after_def using same passes_rows
    by (simp split: sum.splits)
qed

text \<open>The examples: the batch loop entered with two occurrences, one week apart; the
  action itself, whose form is never valid; and the seed with an interval of zero weeks
  on an empty table, whose run never leaves the loop and has created a row after the
  first pass.\<close>

lemma tokens_example: "split_tokens [] ''2024-01-08'' = [''2024-01-08'']"
  by (simp add: is_separator_def)

lemma form_skip_set_example: "form_skip_set example_form = {ymd2ord 2024 1 8}"
proof -
  have raw: "skip_dates example_form = ''2024-01-08''"
    by (simp add: example_form_def)
  show ?thesis
    unfolding form_skip_set_def raw tokens_example
    by (simp add: token_add_def strptime_example)
qed

lemma example_batch_loop:
  "repeat_seeds [example_session] 2 1 (form_skip_set example_form) 0 0 [example_session]
     = (Inr (1, 1),
        [example_session,
         occurrence example_session (datetime_new 2024 1 15 0 0) (datetime_new 2024 1 15 1 0)])"
proof -
  have idxs: "[1..2] = [1, 2::int]"
    by (simp add: upto_rec1)
  have inner: "repeat_occurrences example_session 1 {ymd2ord 2024 1 8}
                 (end_datetime example_session - start_datetime example_session) [1, 2] 0 0
                 [example_session]
     = (Inr (1, 1),
        [example_session,
         occurrence example_session (datetime_new 2024 1 15 0 0) (datetime_new 2024 1 15 1 0)])"
    by (simp add: example_fields session_exists_def objects_create_def occurrence_def
        example_session_def calendar_defs)
  show ?thesis
    unfolding form_skip_set_example repeat_seeds.simps idxs inner by simp
qed

lemma example_partial_run:
  "table_after 2 (example_session\<lparr>recurrence_every_n_weeks := 0\<rparr>) 12 False []
     = [occurrence (example_session\<lparr>recurrence_every_n_weeks := 0\<rparr>)
          (datetime_new 2024 1 1 0 0) (datetime_new 2024 1 1 1 0)]"
proof -
  let ?seed = "example_session\<lparr>recurrence_every_n_weeks := 0\<rparr>"
  let ?row = "occurrence ?seed (datetime_new 2024 1 1 0 0) (datetime_new 2024 1 1 1 0)"
  have skips: "skip_set ?seed = {ymd2ord 2024 1 8}"
    by (simp add: skip_set_def skip_add_def example_session_def strptime_example)
  have fields: "start_datetime ?seed = datetime_new 2024 1 1 0 0"
    "end_datetime ?seed = datetime_new 2024 1 1 1 0"
    "recurrence_enabled ?seed" "recurrence_every_n_weeks ?seed = 0"
    "resolve_end_date ?seed 12 = Inr (ymd2ord 2024 1 22)"
    by (simp_all add: example_session_def resolve_end_date_def)
  have pass1: "loop_pass ?seed False (ymd2ord 2024 1 22)
                 (datetime_new 2024 1 1 1 0 - datetime_new 2024 1 1 0 0) {ymd2ord 2024 1 8}
                 (datetime_new 2024 1 1 0 0) 0 0 []
               = Inr (datetime_new 2024 1 1 0 0, 1, 0, [?row])"
    by (simp add: loop_pass_def fields(4) session_exists_def objects_create_def
        occurrence_def calendar_defs)
  have pass2: "loop_pass ?seed False (ymd2ord 2024 1 22)
                 (datetime_new 2024 1 1 1 0 - datetime_new 2024 1 1 0 0) {ymd2ord 2024 1 8}
                 (datetime_new 2024 1 1 0 0) 1 0 [?row]
               = Inr (datetime_new 2024 1 1 0 0, 1, 1, [?row])"
    by (simp add: loop_pass_def fields(4) session_exists_def occurrence_def calendar_defs)
  have two: "passes (Suc (Suc 0)) ?seed False (ymd2ord 2024 1 22)
               (datetime_new 2024 1 1 1 0 - datetime_new 2024 1 1 0 0) {ymd2ord 2024 1 8}
               (datetime_new 2024 1 1 0 0, 0, 0, [])
             = Inr (datetime_new 2024 1 1 0 0, 1, 1, [?row])"
    unfolding passes.simps pass1 by (simp add: pass2)
  have range: "\<not> ymd2ord 2024 1 22 < datetime_date (start_datetime ?seed)"
    by (simp add: example_session_def calendar_defs)
  have "table_after 2 ?seed 12 False []
          = table_of (passes 2 ?seed False (ymd2ord 2024 1 22)
                        (end_datetime ?seed - start_datetime ?seed) (skip_set ?seed)
                        (start_datetime ?seed, 0, 0, []))"
    using fields(3,5) range by (rule table_after_loop)
  also have "\<dots> = table_of (Inr (datetime_new 2024 1 1 0 0, 1, 1, [?row]))"
    by (simp only: fields(1,2) skips numeral_2_eq_2 two)
  also have "\<dots> = [?row]"
    by (simp add: table_of_def)
  finally show ?thesis .
qed

text \<open>
  C7. Every row either generator adds to the table is a copy of its seed with a new start
  and end, and its end minus its start is the seed's end minus the seed's start. For the
  per-seed generator: in the table a call returns with (whatever it returns or raises),
  and in the table after any number of passes of its loop, so also while a call runs that
  never returns. For the batch variant, where the seed is one of the selected rows: in the
  table the action leaves, and in the table its loop leaves whenever it is entered (the
  action itself never enters it, see \<open>generate_repeats_invalid\<close>).
\<close>

theorem C7_duration_preserved:
  "(generate_recurrences seed default_weeks dry_run st = Some (out, st') \<longrightarrow>
      (\<exists>new. st' = st @ new
         \<and> (\<forall>r \<in> set new. r = occurrence seed (start_datetime r) (end_datetime r)
               \<and> end_datetime r - start_datetime r = end_datetime seed - start_datetime seed)))
   \<and> (\<exists>new. table_after n seed default_weeks dry_run st = st @ new
         \<and> (\<forall>r \<in> set new. r = occurrence seed (start_datetime r) (end_datetime r)
               \<and> end_datetime r - start_datetime r = end_datetime seed - start_datetime seed))
   \<and> (generate_repeats form queryset st = (out2, st2) \<longrightarrow>
      (\<exists>new. st2 = st @ new
         \<and> (\<forall>r \<in> set new. \<exists>s \<in> set queryset.
               r = occurrence s (start_datetime r) (end_datetime r)
               \<and> end_datetime r - start_datetime r = end_datetime s - start_datetime s)))
   \<and> (repeat_seeds queryset n_occ interval skips c k st = (out3, st3) \<longrightarrow>
      (\<exists>new. st3 = st @ new
         \<and> (\<forall>r \<in> set new. \<exists>s \<in> set queryset.
               r = occurrence s (start_datetime r) (end_datetime r)
               \<and> end_datetime r - start_datetime r = end_datetime s - start_datetime s)))"
  using generate_recurrences_rows [of seed default_weeks dry_run st out st']
    table_after_rows [of n seed default_weeks dry_run st]
    generate_repeats_rows [of form queryset st out2 st2]
    repeat_seeds_rows [of queryset n_occ interval skips c k st out3 st3]
  unfolding made_from_def by blast

theorem C7_witness:
  "generate_recurrences example_session 12 False [example_session]
     = Some (Inr \<lparr>created = 2, skipped = 1, reason = ''ok''\<rparr>,
             [example_session,
              occurrence example_session (datetime_new 2024 1 15 0 0) (datetime_new 2024 1 15 1 0),
              occurrence example_session (datetime_new 2024 1 22 0 0) (datetime_new 2024 1 22 1 0)])
   \<and> end_datetime (occurrence example_session (datetime_new 2024 1 22 0 0)
                      (datetime_new 2024 1 22 1 0))
       - start_datetime (occurrence example_session (datetime_new 2024 1 22 0 0)
                          (datetime_new 2024 1 22 1 0))
       = end_datetime example_session - start_datetime example_session
   \<and> table_after 2 (example_session\<lparr>recurrence_every_n_weeks := 0\<rparr>) 12 False []
       = [occurrence (example_session\<lparr>recurrence_every_n_weeks := 0\<rparr>)
            (datetime_new 2024 1 1 0 0) (datetime_new 2024 1 1 1 0)]
   \<and> end_datetime (occurrence (example_session\<lparr>recurrence_every_n_weeks := 0\<rparr>)
                      (datetime_new 2024 1 1 0 0) (datetime_new 2024 1 1 1 0))
       - start_datetime (occurrence (example_session\<lparr>recurrence_every_n_weeks := 0\<rparr>)
                          (datetime_new 2024 1 1 0 0) (datetime_new 2024 1 1 1 0))
       = end_datetime (example_session\<lparr>recurrence_every_n_weeks := 0\<rparr>)
         - start_datetime (example_session\<lparr>recurrence_every_n_weeks := 0\<rparr>)
   \<and> generate_repeats example_form [example_session] [example_session]
       = (Inr InvalidOptions, [example_session])
   \<and> repeat_seeds [example_session] 2 1 (form_skip_set example_form) 0 0 [example_session]
       = (Inr (1, 1),
          [example_session,
           occurrence example_session (datetime_new 2024 1 15 0 0)
             (datetime_new 2024 1 15 1 0)])
   \<and> end_datetime (occurrence example_session (datetime_new 2024 1 15 0 0)
                      (datetime_new 2024 1 15 1 0))
       - start_datetime (occurrence example_session (datetime_new 2024 1 15 0 0)
                          (datetime_new 2024 1 15 1 0))
       = end_datetime example_session - start_datetime example_session"
proof -
  let ?zero = "example_session\<lparr>recurrence_every_n_weeks := 0\<rparr>"
  let ?r1 = "occurrence ?zero (datetime_new 2024 1 1 0 0) (datetime_new 2024 1 1 1 0)"
  let ?r15 = "occurrence example_session (datetime_new 2024 1 15 0 0) (datetime_new 2024 1 15 1 0)"
  let ?r22 = "occurrence example_session (datetime_new 2024 1 22 0 0) (datetime_new 2024 1 22 1 0)"
  note returned = C7_duration_preserved
    [where seed = example_session and default_weeks = 12 and dry_run = False
       and st = "[example_session]"
       and out = "Inr \<lparr>created = 2, skipped = 1, reason = ''ok''\<rparr>"
       and st' = "[example_session, ?r15, ?r22]"
       and form = example_form and queryset = "[example_session]"
       and ?out2.0 = "Inr InvalidOptions" and ?st2.0 = "[example_session]"
       and n_occ = 2 and interval = 1 and skips = "form_skip_set example_form"
       and c = 0 and k = 0
       and ?out3.0 = "Inr (1, 1)" and ?st3.0 = "[example_session, ?r15]"]
  note running = C7_duration_preserved
    [where seed = ?zero and default_weeks = 12 and dry_run = False and st = "[]" and n = 2]
  have action: "generate_repeats example_form [example_session] [example_session]
                  = (Inr InvalidOptions, [example_session])"
    by (rule generate_repeats_invalid)
  from returned example_first_run obtain new where
    new: "[example_session, ?r15, ?r22] = [example_session] @ new"
    and rows: "\<forall>r \<in> set new. r = occurrence example_session (start_datetime r) (end_datetime r)
        \<and> end_datetime r - start_datetime r
            = end_datetime example_session - start_datetime example_session"
    by blast
  from new have "new = [?r15, ?r22]" by simp
  then have "?r22 \<in> set new" by simp
  with rows have d22: "end_datetime ?r22 - start_datetime ?r22
                         = end_datetime example_session - start_datetime example_session"
    by blast
  from returned example_batch_loop obtain new3 where
    new3: "[example_session, ?r15] = [example_session] @ new3"
    and rows3: "\<forall>r \<in> set new3. \<exists>s \<in> set [example_session].
        r = occurrence s (start_datetime r) (end_datetime r)
        \<and> end_datetime r - start_datetime r = end_datetime s - start_datetime s"
    by blast
  from new3 have "new3 = [?r15]" by simp
  then have "?r15 \<in> set new3" by simp
  with rows3 have d15: "end_datetime ?r15 - start_datetime ?r15
                          = end_datetime example_session - start_datetime example_session"
    by auto
  from running obtain new1 where
    new1: "table_after 2 ?zero 12 False [] = [] @ new1"
    and rows1: "\<forall>r \<in> set new1. r = occurrence ?zero (start_datetime r) (end_datetime r)
        \<and> end_datetime r - start_datetime r = end_datetime ?zero - start_datetime ?zero"
    by blast
  from new1 example_partial_run have "new1 = [?r1]" by simp
  then have "?r1 \<in> set new1" by simp
  with rows1 have d1: "end_datetime ?r1 - start_datetime ?r1
                         = end_datetime ?zero - start_datetime ?zero"
    by blast
  from example_first_run d22 example_partial_run d1 action example_batch_loop d15
  show ?thesis by blast
qed


end
